theory Spec2Isabelle
  imports Main "HOL-Library.Word"
begin

unbundle bit_operations_syntax

section \<open>Data model of the netlist program\<close>

text \<open>
  The simulator and the parser work on the expression tree of the netlist: variables and
  constants are the arguments, every equation binds one variable to one expression.
  A \<open>Variable::ptr\<close> is a shared pointer to the one object the parser creates per declared
  name, so a variable is identified here by its contents.
\<close>

type_synonym ident_t = string
type_synonym value_t = "64 word"
type_synonym bus_size_t = nat

datatype Variable = Variable (var_bus_size: bus_size_t) (var_name: ident_t)

datatype Constant = Constant (cst_bus_size: bus_size_t) (cst_value: value_t)

datatype Argument = VARIABLE Variable | CONSTANT Constant

fun arg_bus_size :: "Argument \<Rightarrow> bus_size_t" where
  "arg_bus_size (VARIABLE v) = var_bus_size v"
| "arg_bus_size (CONSTANT c) = cst_bus_size c"

datatype BinOpKind = BinOR | BinXOR | BinAND | BinNAND

datatype Expression =
    ArgExpression Argument
  | RegExpression Variable
  | NotExpression Argument
  | BinOpExpression BinOpKind Argument Argument
  | MuxExpression Argument Argument Argument
  | RomExpression bus_size_t bus_size_t Argument
  | RamExpression bus_size_t bus_size_t Argument Argument Argument Argument
  | ConcatExpression Argument Argument
  | SliceExpression bus_size_t bus_size_t Argument
  | SelectExpression bus_size_t Argument

text \<open>
  Modelled from the spec: the class declarations of the expression forms (and with them
  \<open>Expression::get_bus_size\<close>) are not part of the sources at hand. The bus size of an
  expression is the width of its result as given by the table of expression forms:
  the width of the argument for a plain argument, \<open>NOT\<close> and \<open>REG\<close>, the width of the
  first operand for the binary operators, the width of the true branch for \<open>MUX\<close>,
  the word size for \<open>ROM\<close> and \<open>RAM\<close>, the sum of both widths for \<open>CONCAT\<close>, one for
  \<open>SELECT\<close> and \<open>e - s + 1\<close> for \<open>SLICE s e\<close>.
\<close>

fun get_bus_size :: "Expression \<Rightarrow> bus_size_t" where
  "get_bus_size (ArgExpression a) = arg_bus_size a"
| "get_bus_size (RegExpression v) = var_bus_size v"
| "get_bus_size (NotExpression a) = arg_bus_size a"
| "get_bus_size (BinOpExpression k l r) = arg_bus_size l"
| "get_bus_size (MuxExpression c t f) = arg_bus_size t"
| "get_bus_size (RomExpression as ws ra) = ws"
| "get_bus_size (RamExpression as ws ra we wa wd) = ws"
| "get_bus_size (ConcatExpression a b) = arg_bus_size a + arg_bus_size b"
| "get_bus_size (SliceExpression s e a) = e - s + 1"
| "get_bus_size (SelectExpression i a) = 1"

record Program =
  m_input :: "Variable list"
  m_output :: "Variable list"
  m_vars :: "Variable list"
  m_eq :: "(Variable \<times> Expression) list"

text \<open>
  \<open>m_eq\<close> is a hash table in the source; the association list gives its entries in the
  order in which the table is iterated. \<open>try_emplace\<close> and \<open>emplace\<close> insert a key only
  when the table does not hold it yet, and leave the stored value alone otherwise.
\<close>

definition emplace :: "'k \<Rightarrow> 'v \<Rightarrow> ('k \<times> 'v) list \<Rightarrow> ('k \<times> 'v) list" where
  "emplace k v xs = (case map_of xs k of None \<Rightarrow> xs @ [(k, v)] | Some _ \<Rightarrow> xs)"

section \<open>Diagnostics and failures\<close>

datatype ReportSeverity = WARNING | ERROR

text \<open>A printed report is kept as its severity and its code.\<close>

type_synonym report = "ReportSeverity \<times> nat"

text \<open>
  What stops the simulator: \<open>Report::exit\<close> (which does not return), an exception of
  \<open>at()\<close> on a missing key, and the operations C++ leaves undefined (an index outside a
  vector, a shift by 64 or more, a read of an uninitialised local).
\<close>

datatype failure = Exit ReportSeverity nat | OutOfRange | Undefined

section \<open>The memory mapper\<close>

datatype RamInfo = RamInfo (write_enable: Argument) (write_addr: Argument) (data: Argument)
  (ram_block_index: nat) (ram_block_size: nat)

datatype RomInfo = RomInfo (rom_block_index: nat) (rom_block_size: nat)

record MemoryMapper =
  reg_info :: "(Variable \<times> nat) list"
  ram_info :: "(ident_t \<times> RamInfo) list"
  rom_info :: "(ident_t \<times> RomInfo) list"
  current_index :: nat

text \<open>
  \<open>static_cast<size_t>(1) << address_size\<close>: the shift is undefined from 64 bits on.
\<close>

definition shl_one :: "bus_size_t \<Rightarrow> failure + nat" where
  "shl_one n = (if n < 64 then Inr (2 ^ n) else Inl Undefined)"

fun mapper_visit :: "Variable \<Rightarrow> Expression \<Rightarrow> MemoryMapper \<Rightarrow> failure + MemoryMapper" where
  "mapper_visit current_var (RegExpression v) mm =
     (case map_of (reg_info mm) v of
        None \<Rightarrow> Inr (mm\<lparr>reg_info := reg_info mm @ [(v, current_index mm)],
                        current_index := current_index mm + 1\<rparr>)
      | Some _ \<Rightarrow> Inr mm)"
| "mapper_visit current_var (RamExpression as ws ra we wa wd) mm =
     (case shl_one as of
        Inl f \<Rightarrow> Inl f
      | Inr block_size \<Rightarrow>
          Inr (mm\<lparr>ram_info := emplace (var_name current_var)
                                  (RamInfo we wa wd (current_index mm) block_size) (ram_info mm),
                  current_index := current_index mm + block_size\<rparr>))"
| "mapper_visit current_var (RomExpression as ws ra) mm =
     (case shl_one as of
        Inl f \<Rightarrow> Inl f
      | Inr block_size \<Rightarrow>
          Inr (mm\<lparr>rom_info := emplace (var_name current_var)
                                  (RomInfo (current_index mm) block_size) (rom_info mm),
                  current_index := current_index mm + block_size\<rparr>))"
| "mapper_visit current_var _ mm = Inr mm"

fun mapper_loop :: "(Variable \<times> Expression) list \<Rightarrow> MemoryMapper \<Rightarrow> failure + MemoryMapper" where
  "mapper_loop [] mm = Inr mm"
| "mapper_loop ((var, eq) # rest) mm =
     (case mapper_visit var eq mm of Inl f \<Rightarrow> Inl f | Inr mm' \<Rightarrow> mapper_loop rest mm')"

definition MemoryMapper_new :: "Program \<Rightarrow> failure + MemoryMapper" where
  "MemoryMapper_new p =
     mapper_loop (m_eq p) \<lparr>reg_info = [], ram_info = [], rom_info = [], current_index = 0\<rparr>"

section \<open>The expression evaluator\<close>

type_synonym var_env = "Variable \<rightharpoonup> value_t"

definition env_at :: "var_env \<Rightarrow> Variable \<Rightarrow> failure + value_t" where
  "env_at env v = (case env v of None \<Rightarrow> Inl OutOfRange | Some x \<Rightarrow> Inr x)"

definition mem_at :: "value_t list \<Rightarrow> nat \<Rightarrow> failure + value_t" where
  "mem_at mem i = (if i < length mem then Inr (mem ! i) else Inl Undefined)"

text \<open>\<open>size_t\<close> addition of a block index and a 64-bit value wraps around.\<close>

definition mem_offset :: "nat \<Rightarrow> value_t \<Rightarrow> nat" where
  "mem_offset block_index v = (block_index + unat v) mod 2 ^ 64"

text \<open>Shifts of a 64-bit value; the shift count must stay below 64.\<close>

definition shl :: "value_t \<Rightarrow> nat \<Rightarrow> failure + value_t" where
  "shl v n = (if n < 64 then Inr (push_bit n v) else Inl Undefined)"

definition shr :: "value_t \<Rightarrow> nat \<Rightarrow> failure + value_t" where
  "shr v n = (if n < 64 then Inr (drop_bit n v) else Inl Undefined)"

fun visit_argument :: "var_env \<Rightarrow> Argument \<Rightarrow> failure + value_t" where
  "visit_argument env (CONSTANT cst) = Inr (cst_value cst)"
| "visit_argument env (VARIABLE var) = env_at env var"

fun visit_binop :: "BinOpKind \<Rightarrow> value_t \<Rightarrow> value_t \<Rightarrow> value_t" where
  "visit_binop BinOR lhs_value current_value = lhs_value OR current_value"
| "visit_binop BinXOR lhs_value current_value = lhs_value XOR current_value"
| "visit_binop BinAND lhs_value current_value = lhs_value AND current_value"
| "visit_binop BinNAND lhs_value current_value = NOT (lhs_value AND current_value)"

fun eval :: "var_env \<Rightarrow> value_t list \<Rightarrow> MemoryMapper \<Rightarrow> Variable \<Rightarrow> Expression
    \<Rightarrow> failure + value_t" where
  "eval env mem mm current_var (ArgExpression a) = visit_argument env a"
| "eval env mem mm current_var (RegExpression v) =
     (case map_of (reg_info mm) v of
        None \<Rightarrow> Inl OutOfRange
      | Some i \<Rightarrow> mem_at mem i)"
| "eval env mem mm current_var (NotExpression a) =
     (case visit_argument env a of Inl f \<Rightarrow> Inl f | Inr current_value \<Rightarrow> Inr (NOT current_value))"
| "eval env mem mm current_var (BinOpExpression k l r) =
     (case visit_argument env l of
        Inl f \<Rightarrow> Inl f
      | Inr lhs_value \<Rightarrow>
          (case visit_argument env r of
             Inl f \<Rightarrow> Inl f
           | Inr current_value \<Rightarrow> Inr (visit_binop k lhs_value current_value)))"
| "eval env mem mm current_var (MuxExpression c t f) =
     (case visit_argument env c of
        Inl e \<Rightarrow> Inl e
      | Inr current_value \<Rightarrow>
          (if current_value \<noteq> 0 then visit_argument env t else visit_argument env f))"
| "eval env mem mm current_var (RomExpression as ws ra) =
     (case visit_argument env ra of
        Inl f \<Rightarrow> Inl f
      | Inr current_value \<Rightarrow>
          (case map_of (rom_info mm) (var_name current_var) of
             None \<Rightarrow> Inl OutOfRange
           | Some info \<Rightarrow> mem_at mem (mem_offset (rom_block_index info) current_value)))"
| "eval env mem mm current_var (RamExpression as ws ra we wa wd) =
     (case visit_argument env ra of
        Inl f \<Rightarrow> Inl f
      | Inr current_value \<Rightarrow>
          (case map_of (ram_info mm) (var_name current_var) of
             None \<Rightarrow> Inl OutOfRange
           | Some info \<Rightarrow> mem_at mem (mem_offset (ram_block_index info) current_value)))"
| "eval env mem mm current_var (ConcatExpression a b) =
     (case visit_argument env a of
        Inl f \<Rightarrow> Inl f
      | Inr beg_value \<Rightarrow>
          (case visit_argument env b of
             Inl f \<Rightarrow> Inl f
           | Inr current_value \<Rightarrow>
               (case shl current_value (get_bus_size (ConcatExpression a b)) of
                  Inl f \<Rightarrow> Inl f
                | Inr shifted \<Rightarrow> Inr (shifted OR beg_value))))"
| "eval env mem mm current_var (SliceExpression s e a) =
     (case visit_argument env a of
        Inl f \<Rightarrow> Inl f
      | Inr current_value \<Rightarrow>
          (case shr current_value s of
             Inl f \<Rightarrow> Inl f
           | Inr value_shifted \<Rightarrow>
               (case shl 1 (nat ((int e - int s + 1) mod 2 ^ 32)) of
                  Inl f \<Rightarrow> Inl f
                | Inr m \<Rightarrow> Inr (value_shifted AND (m - 1)))))"
| "eval env mem mm current_var (SelectExpression i a) =
     (case visit_argument env a of
        Inl f \<Rightarrow> Inl f
      | Inr current_value \<Rightarrow>
          (case shr current_value i of
             Inl f \<Rightarrow> Inl f
           | Inr shifted \<Rightarrow> Inr (shifted AND 1)))"

section \<open>The simulator\<close>

record Simulator =
  prog :: Program
  dep_list :: "Variable list"
  mem_map :: MemoryMapper
  memory :: "value_t list"
  env :: var_env

subsection \<open>Construction\<close>

text \<open>
  While the memory chunks of the input manager are loaded, the constructor owns the memory
  array, the set of blocks not filled yet and the reports printed so far.
\<close>

record Loader =
  ld_memory :: "value_t list"
  uninitialised_blocks :: "ident_t list"
  ld_reports :: "report list"

text \<open>
  A step of the constructor either goes on with a new loader state, or stops the program;
  in the second case the reports printed before the stop are kept with the failure.
\<close>

type_synonym 'a ctor_result = "(report list \<times> failure) + 'a"

text \<open>
  \<open>std::copy\<close> of a chunk to \<open>memory.begin() + block_index\<close>; \<open>block_index\<close> is a signed
  \<open>ptrdiff_t\<close>, and a destination range outside the vector is undefined.
\<close>

definition copy_chunk :: "value_t list \<Rightarrow> int \<Rightarrow> value_t list \<Rightarrow> failure + value_t list" where
  "copy_chunk mem block_index chunk =
     (if 0 \<le> block_index \<and> nat block_index + length chunk \<le> length mem
      then Inr (take (nat block_index) mem @ chunk @ drop (nat block_index + length chunk) mem)
      else Inl Undefined)"

text \<open>
  One round of the loop over \<open>in_manager.memory_blocks\<close>. The locals \<open>block_size\<close> and
  \<open>block_index\<close> are declared without an initialiser; \<open>junk\<close> gives the indeterminate
  values they hold when neither branch of the lookup assigns them.
\<close>

definition load_chunk :: "MemoryMapper \<Rightarrow> nat \<times> int \<Rightarrow> ident_t \<times> value_t list \<Rightarrow> Loader
    \<Rightarrow> Loader ctor_result" where
  "load_chunk mm junk chunk ld =
     (let chunk_name = fst chunk; memory_chunks = snd chunk;
          (block_size, block_index, reports) =
            (case map_of (ram_info mm) chunk_name of
               Some info \<Rightarrow> (ram_block_size info, int (ram_block_index info), ld_reports ld)
             | None \<Rightarrow>
                 (case map_of (rom_info mm) chunk_name of
                    Some info \<Rightarrow> (rom_block_size info, int (rom_block_index info), ld_reports ld)
                  | None \<Rightarrow> (fst junk, snd junk, ld_reports ld @ [(WARNING, 50)])))
      in if block_size \<noteq> length memory_chunks then Inl (reports, Exit ERROR 51)
         else (case copy_chunk (ld_memory ld) block_index memory_chunks of
                 Inl f \<Rightarrow> Inl (reports, f)
               | Inr mem' \<Rightarrow>
                   Inr (ld\<lparr>ld_memory := mem',
                           uninitialised_blocks := removeAll chunk_name (uninitialised_blocks ld),
                           ld_reports := reports\<rparr>)))"

text \<open>
  The indeterminate values may differ from round to round: \<open>junk\<close> is asked by chunk name
  (the names of \<open>memory_blocks\<close> are the keys of a table, hence distinct).
\<close>

fun load_chunks :: "MemoryMapper \<Rightarrow> (ident_t \<Rightarrow> nat \<times> int) \<Rightarrow> (ident_t \<times> value_t list) list
    \<Rightarrow> Loader \<Rightarrow> Loader ctor_result" where
  "load_chunks mm junk [] ld = Inr ld"
| "load_chunks mm junk (chunk # rest) ld =
     (case load_chunk mm (junk (fst chunk)) chunk ld of
        Inl stop \<Rightarrow> Inl stop
      | Inr ld' \<Rightarrow> load_chunks mm junk rest ld')"

text \<open>The last loop of the constructor: one report per block that was not filled.\<close>

fun report_uninitialised :: "MemoryMapper \<Rightarrow> ident_t list \<Rightarrow> report list" where
  "report_uninitialised mm [] = []"
| "report_uninitialised mm (chunk_name # rest) =
     (case map_of (rom_info mm) chunk_name of
        Some _ \<Rightarrow> (ERROR, 52) # report_uninitialised mm rest
      | None \<Rightarrow> (WARNING, 52) # report_uninitialised mm rest)"

fun insert_all :: "ident_t list \<Rightarrow> ident_t list \<Rightarrow> ident_t list" where
  "insert_all [] s = s"
| "insert_all (x # xs) s = insert_all xs (if x \<in> set s then s else s @ [x])"

fun init_env :: "(Variable \<times> Expression) list \<Rightarrow> var_env \<Rightarrow> var_env" where
  "init_env [] e = e"
| "init_env ((var, eq) # rest) e =
     init_env rest (case e var of None \<Rightarrow> e(var \<mapsto> 0) | Some _ \<Rightarrow> e)"

text \<open>
  The constructor. The schedule comes from \<open>Scheduler::schedule\<close> and the memory chunks
  from the input manager; both are outside the sources at hand and are taken as given.
  The result pairs the reports printed with the simulator built.
\<close>

definition Simulator_new :: "(ident_t \<Rightarrow> nat \<times> int) \<Rightarrow> (ident_t \<times> value_t list) list
    \<Rightarrow> Variable list \<Rightarrow> Program \<Rightarrow> (report list \<times> Simulator) ctor_result" where
  "Simulator_new junk memory_blocks schedule p =
     (case MemoryMapper_new p of
        Inl f \<Rightarrow> Inl ([], f)
      | Inr mm \<Rightarrow>
          (case load_chunks mm junk memory_blocks
                  \<lparr>ld_memory = replicate (current_index mm) 0,
                   uninitialised_blocks =
                     insert_all (map fst (rom_info mm)) (insert_all (map fst (ram_info mm)) []),
                   ld_reports = []\<rparr> of
             Inl stop \<Rightarrow> Inl stop
           | Inr ld \<Rightarrow>
               Inr (ld_reports ld @ report_uninitialised mm (uninitialised_blocks ld),
                    \<lparr>prog = p, dep_list = schedule, mem_map = mm, memory = ld_memory ld,
                     env = init_env (m_eq p) Map.empty\<rparr>)))"

subsection \<open>One cycle\<close>

text \<open>
  \<open>get_input_value\<close> is the answer of the input manager for the cycle being run.
  The inputs are stored with \<open>env.emplace\<close>, which inserts a key only when it is absent.
\<close>

fun bind_inputs :: "(ident_t \<Rightarrow> value_t) \<Rightarrow> Variable list \<Rightarrow> var_env \<Rightarrow> var_env" where
  "bind_inputs get_input_value [] e = e"
| "bind_inputs get_input_value (in_var # rest) e =
     bind_inputs get_input_value rest
       (case e in_var of
          None \<Rightarrow> e(in_var \<mapsto> get_input_value (var_name in_var))
        | Some _ \<Rightarrow> e)"

fun eval_equations :: "Variable list \<Rightarrow> Simulator \<Rightarrow> failure + Simulator" where
  "eval_equations [] s = Inr s"
| "eval_equations (var # rest) s =
     (case map_of (m_eq (prog s)) var of
        None \<Rightarrow> Inl OutOfRange
      | Some eq \<Rightarrow>
          (case eval (env s) (memory s) (mem_map s) var eq of
             Inl f \<Rightarrow> Inl f
           | Inr v \<Rightarrow> eval_equations rest (s\<lparr>env := (env s)(var \<mapsto> v)\<rparr>)))"

fun save_registers :: "(Variable \<times> nat) list \<Rightarrow> Simulator \<Rightarrow> failure + Simulator" where
  "save_registers [] s = Inr s"
| "save_registers ((var, reg_offset) # rest) s =
     (case env_at (env s) var of
        Inl f \<Rightarrow> Inl f
      | Inr v \<Rightarrow>
          (if reg_offset < length (memory s)
           then save_registers rest (s\<lparr>memory := (memory s)[reg_offset := v]\<rparr>)
           else Inl Undefined))"

definition eval_arg :: "Simulator \<Rightarrow> Argument \<Rightarrow> failure + value_t" where
  "eval_arg s arg =
     (case arg of CONSTANT c \<Rightarrow> Inr (cst_value c) | VARIABLE v \<Rightarrow> env_at (env s) v)"

fun ram_writes :: "(ident_t \<times> RamInfo) list \<Rightarrow> Simulator \<Rightarrow> failure + Simulator" where
  "ram_writes [] s = Inr s"
| "ram_writes ((var, info) # rest) s =
     (case eval_arg s (write_enable info) of
        Inl f \<Rightarrow> Inl f
      | Inr we \<Rightarrow>
          (if we \<noteq> 0 then
             (case eval_arg s (data info) of
                Inl f \<Rightarrow> Inl f
              | Inr d \<Rightarrow>
                  (case eval_arg s (write_addr info) of
                     Inl f \<Rightarrow> Inl f
                   | Inr a \<Rightarrow>
                       (let offset = mem_offset (ram_block_index info) a
                        in if offset < length (memory s)
                           then ram_writes rest (s\<lparr>memory := (memory s)[offset := d]\<rparr>)
                           else Inl Undefined)))
           else ram_writes rest s))"

definition cycle :: "(ident_t \<Rightarrow> value_t) \<Rightarrow> Simulator \<Rightarrow> failure + Simulator" where
  "cycle get_input_value s =
     (case eval_equations (dep_list s)
             (s\<lparr>env := bind_inputs get_input_value (m_input (prog s)) (env s)\<rparr>) of
        Inl f \<Rightarrow> Inl f
      | Inr s1 \<Rightarrow>
          (case save_registers (reg_info (mem_map s1)) s1 of
             Inl f \<Rightarrow> Inl f
           | Inr s2 \<Rightarrow> ram_writes (ram_info (mem_map s2)) s2))"

text \<open>
  \<open>simulate\<close> calls \<open>cycle\<close> once per step; the list holds, cycle by cycle, what the input
  manager answers, and its length is the number of cycles.
\<close>

fun simulate :: "(ident_t \<Rightarrow> value_t) list \<Rightarrow> Simulator \<Rightarrow> failure + Simulator" where
  "simulate [] s = Inr s"
| "simulate (inp # rest) s =
     (case cycle inp s of Inl f \<Rightarrow> Inl f | Inr s' \<Rightarrow> simulate rest s')"

text \<open>
  The same run, keeping what a variable holds after each cycle (the driver calls \<open>cycle\<close>
  and then shows the outputs, step by step).
\<close>

fun trace :: "Variable \<Rightarrow> (ident_t \<Rightarrow> value_t) list \<Rightarrow> Simulator \<Rightarrow> failure + value_t option list" where
  "trace v [] s = Inr []"
| "trace v (inp # rest) s =
     (case cycle inp s of
        Inl f \<Rightarrow> Inl f
      | Inr s' \<Rightarrow> (case trace v rest s' of Inl f \<Rightarrow> Inl f | Inr vs \<Rightarrow> Inr (env s' v # vs)))"

section \<open>The parser\<close>

subsection \<open>Tokens\<close>

datatype TokenKind =
    EOI | IDENTIFIER | INTEGER | BINARY_CONSTANT | DECIMAL_CONSTANT | HEXADECIMAL_CONSTANT
  | EQUAL | COMMA | COLON | LEFT_BRACKET | RIGHT_BRACKET
  | KEY_INPUT | KEY_OUTPUT | KEY_VAR | KEY_IN
  | KEY_NOT | KEY_AND | KEY_NAND | KEY_OR | KEY_XOR
  | KEY_MUX | KEY_REG | KEY_CONCAT | KEY_SELECT | KEY_SLICE | KEY_ROM | KEY_RAM

text \<open>
  A token is its kind and its spelling. The spelling is a view into the input buffer, and
  \<open>parse_int\<close> reads the character at the end pointer of that view; \<open>following\<close> is that
  character, the one stored in the buffer right after the spelling. Source positions only
  feed the diagnostics and are left out.
\<close>

record Token =
  kind :: TokenKind
  spelling :: string
  following :: char

text \<open>
  The lexer hands out the tokens one by one and answers \<open>EOI\<close> for ever once the input is
  used up. The parser state is the list of the tokens not consumed yet: its head is
  \<open>m_token\<close>, and \<open>consume\<close> drops it.
\<close>

definition m_token :: "Token list \<Rightarrow> Token" where
  "m_token ts = (case ts of [] \<Rightarrow> \<lparr>kind = EOI, spelling = [], following = CHR 0x00\<rparr> | t # _ \<Rightarrow> t)"

definition consume :: "Token list \<Rightarrow> Token list" where
  "consume ts = tl ts"

text \<open>
  Every error of the parser is a report of severity \<open>ERROR\<close> followed by \<open>exit\<close>; the
  constructors name the messages. \<open>NoReturnValue\<close> stands for the undefined case in which
  \<open>parse_expression\<close> leaves its \<open>switch\<close> without returning.
\<close>

datatype parse_error =
    UnexpectedToken | ValueTooBig | InvalidValue | UnparsedPart
  | AlreadyInput | AlreadyOutput | AlreadyDeclared
  | MissingInputDeclaration | MissingOutputDeclaration
  | AssignmentOfUndefined | UndefinedVariable
  | NotSameBusSize | BusSizeNotEqual | BusSizeNotGreater | IntervalBounds
  | MissingExpression | BusSizeTooBig | ConstantTooLarge | MissingSizeSpecifier
  | NoEquation | NoReturnValue

type_synonym 'a parsed = "parse_error + ('a \<times> Token list)"

subsection \<open>Integers\<close>

text \<open>
  \<open>std::from_chars\<close>: the longest prefix of digits of the base is read; letters count
  as digits from ten on, in either case.
\<close>

definition digit_of :: "nat \<Rightarrow> char \<Rightarrow> nat option" where
  "digit_of base c =
     (let n = (of_char c :: nat);
          d = (if 48 \<le> n \<and> n \<le> 57 then Some (n - 48)
               else if 97 \<le> n \<and> n \<le> 122 then Some (n - 87)
               else if 65 \<le> n \<and> n \<le> 90 then Some (n - 55)
               else None)
      in case d of None \<Rightarrow> None | Some k \<Rightarrow> if k < base then Some k else None)"

fun read_digits :: "nat \<Rightarrow> string \<Rightarrow> nat \<Rightarrow> nat \<times> string" where
  "read_digits base [] acc = (acc, [])"
| "read_digits base (c # cs) acc =
     (case digit_of base c of
        None \<Rightarrow> (acc, c # cs)
      | Some d \<Rightarrow> read_digits base cs (acc * base + d))"

text \<open>
  \<open>parse_int<T>\<close>, with \<open>max_T\<close> for \<open>std::numeric_limits<T>::max()\<close>. After a successful
  conversion the character at \<open>ptr\<close> must be NUL: inside the spelling when digits are left
  over, right behind it otherwise.
\<close>

definition parse_int :: "nat \<Rightarrow> Token \<Rightarrow> nat \<Rightarrow> parse_error + nat" where
  "parse_int max_T token base =
     (case spelling token of
        [] \<Rightarrow> Inl InvalidValue
      | c # cs \<Rightarrow>
          (case digit_of base c of
             None \<Rightarrow> Inl InvalidValue
           | Some _ \<Rightarrow>
               (let (v, rest) = read_digits base (c # cs) 0
                in if max_T < v then Inl ValueTooBig
                   else if (case rest of [] \<Rightarrow> following token | r # _ \<Rightarrow> r) \<noteq> CHR 0x00
                   then Inl UnparsedPart
                   else Inr v)))"

definition max_bus_size_t :: nat where
  "max_bus_size_t = 2 ^ 32 - 1"

definition max_value_t :: nat where
  "max_value_t = 2 ^ 64 - 1"

text \<open>
  Modelled from the spec: the constant \<open>max_bus_size\<close> is declared outside the sources at
  hand; the maximum bus width is 64.
\<close>

definition max_bus_size :: bus_size_t where
  "max_bus_size = 64"

text \<open>
  Modelled from the spec: \<open>Bus::max_value\<close> is declared outside the sources at hand; a
  value fits in a width \<open>w\<close> when it is at most \<open>2 ^ w - 1\<close>.
\<close>

definition max_value :: "bus_size_t \<Rightarrow> nat" where
  "max_value sz = 2 ^ sz - 1"

definition parse_bus_size :: "Token list \<Rightarrow> bus_size_t parsed" where
  "parse_bus_size ts =
     (if kind (m_token ts) \<noteq> INTEGER then Inl UnexpectedToken
      else (case parse_int max_bus_size_t (m_token ts) 10 of
              Inl e \<Rightarrow> Inl e
            | Inr bs \<Rightarrow> if max_bus_size < bs then Inl BusSizeTooBig else Inr (bs, consume ts)))"

definition parse_size_spec :: "Token list \<Rightarrow> bus_size_t option parsed" where
  "parse_size_spec ts =
     (if kind (m_token ts) = COLON
      then (case parse_bus_size (consume ts) of
              Inl e \<Rightarrow> Inl e
            | Inr (bs, ts') \<Rightarrow> Inr (Some bs, ts'))
      else Inr (None, ts))"

subsection \<open>Arguments\<close>

type_synonym var_table = "(ident_t \<times> Variable) list"

text \<open>
  \<open>parse_binary_digits\<close> takes the bus size from \<open>m_token.spelling.size()\<close> after the
  token has been consumed, that is from the token that follows the digits.
\<close>

definition parse_binary_digits :: "Token list \<Rightarrow> Constant parsed" where
  "parse_binary_digits ts =
     (if kind (m_token ts) \<noteq> INTEGER then Inl UnexpectedToken
      else (case parse_int max_value_t (m_token ts) 2 of
              Inl e \<Rightarrow> Inl e
            | Inr val \<Rightarrow>
                Inr (Constant (length (spelling (m_token (consume ts)))) (of_nat val),
                     consume ts)))"

definition parse_binary_constant :: "Token list \<Rightarrow> Constant parsed" where
  "parse_binary_constant ts =
     (if kind (m_token ts) \<noteq> BINARY_CONSTANT then Inl UnexpectedToken
      else (let cst_tok = m_token ts
            in case parse_int max_value_t (m_token ts) 2 of
                 Inl e \<Rightarrow> Inl e
               | Inr val \<Rightarrow>
                   (case parse_size_spec (consume ts) of
                      Inl e \<Rightarrow> Inl e
                    | Inr (Some sz, ts') \<Rightarrow>
                        if max_value sz < val then Inl ConstantTooLarge
                        else Inr (Constant sz (of_nat val), ts')
                    | Inr (None, ts') \<Rightarrow>
                        Inr (Constant (length (spelling cst_tok)) (of_nat val), ts'))))"

definition parse_decimal_constant :: "Token list \<Rightarrow> Constant parsed" where
  "parse_decimal_constant ts =
     (if kind (m_token ts) \<noteq> DECIMAL_CONSTANT then Inl UnexpectedToken
      else (case parse_int max_value_t (m_token ts) 10 of
              Inl e \<Rightarrow> Inl e
            | Inr val \<Rightarrow>
                (case parse_size_spec (consume ts) of
                   Inl e \<Rightarrow> Inl e
                 | Inr (None, ts') \<Rightarrow> Inl MissingSizeSpecifier
                 | Inr (Some sz, ts') \<Rightarrow>
                     if max_value sz < val then Inl ConstantTooLarge
                     else Inr (Constant sz (of_nat val), ts'))))"

definition parse_hexadecimal_constant :: "Token list \<Rightarrow> Constant parsed" where
  "parse_hexadecimal_constant ts =
     (if kind (m_token ts) \<noteq> HEXADECIMAL_CONSTANT then Inl UnexpectedToken
      else (let cst_tok = m_token ts
            in case parse_int max_value_t (m_token ts) 16 of
                 Inl e \<Rightarrow> Inl e
               | Inr val \<Rightarrow>
                   (case parse_size_spec (consume ts) of
                      Inl e \<Rightarrow> Inl e
                    | Inr (Some sz, ts') \<Rightarrow>
                        if max_value sz < val then Inl ConstantTooLarge
                        else Inr (Constant sz (of_nat val), ts')
                    | Inr (None, ts') \<Rightarrow>
                        Inr (Constant (length (spelling cst_tok) * 4) (of_nat val), ts'))))"

definition parse_variable :: "var_table \<Rightarrow> Token list \<Rightarrow> Variable parsed" where
  "parse_variable vs ts =
     (if kind (m_token ts) \<noteq> IDENTIFIER then Inl UnexpectedToken
      else (case map_of vs (spelling (m_token ts)) of
              None \<Rightarrow> Inl UndefinedVariable
            | Some v \<Rightarrow> Inr (v, consume ts)))"

definition as_constant :: "Constant parsed \<Rightarrow> Argument parsed" where
  "as_constant r = (case r of Inl e \<Rightarrow> Inl e | Inr (c, ts') \<Rightarrow> Inr (CONSTANT c, ts'))"

definition parse_argument :: "var_table \<Rightarrow> Token list \<Rightarrow> Argument parsed" where
  "parse_argument vs ts =
     (if kind (m_token ts) = IDENTIFIER
      then (case parse_variable vs ts of Inl e \<Rightarrow> Inl e | Inr (v, ts') \<Rightarrow> Inr (VARIABLE v, ts'))
      else if kind (m_token ts) = INTEGER then as_constant (parse_binary_digits ts)
      else if kind (m_token ts) = BINARY_CONSTANT then as_constant (parse_binary_constant ts)
      else if kind (m_token ts) = DECIMAL_CONSTANT then as_constant (parse_decimal_constant ts)
      else if kind (m_token ts) = HEXADECIMAL_CONSTANT
      then as_constant (parse_hexadecimal_constant ts)
      else Inl UnexpectedToken)"

subsection \<open>Expressions\<close>

definition assert_same_bus_size :: "Argument \<Rightarrow> Argument \<Rightarrow> bool" where
  "assert_same_bus_size arg1 arg2 = (arg_bus_size arg1 = arg_bus_size arg2)"

definition assert_bus_size_eq :: "Argument \<Rightarrow> bus_size_t \<Rightarrow> bool" where
  "assert_bus_size_eq arg sz = (arg_bus_size arg = sz)"

definition assert_bus_size_gt :: "Argument \<Rightarrow> bus_size_t \<Rightarrow> bool" where
  "assert_bus_size_gt arg sz = (\<not> arg_bus_size arg \<le> sz)"

definition parse_binop :: "BinOpKind \<Rightarrow> var_table \<Rightarrow> Token list \<Rightarrow> Expression parsed" where
  "parse_binop k vs ts =
     (case parse_argument vs ts of
        Inl e \<Rightarrow> Inl e
      | Inr (lhs, ts1) \<Rightarrow>
          (case parse_argument vs ts1 of
             Inl e \<Rightarrow> Inl e
           | Inr (rhs, ts2) \<Rightarrow>
               if assert_same_bus_size lhs rhs then Inr (BinOpExpression k lhs rhs, ts2)
               else Inl NotSameBusSize))"

definition parse_mux :: "var_table \<Rightarrow> Token list \<Rightarrow> Expression parsed" where
  "parse_mux vs ts =
     (case parse_argument vs ts of
        Inl e \<Rightarrow> Inl e
      | Inr (choice, ts1) \<Rightarrow>
          (case parse_argument vs ts1 of
             Inl e \<Rightarrow> Inl e
           | Inr (true_branch, ts2) \<Rightarrow>
               (case parse_argument vs ts2 of
                  Inl e \<Rightarrow> Inl e
                | Inr (false_branch, ts3) \<Rightarrow>
                    if \<not> assert_bus_size_eq choice 1 then Inl BusSizeNotEqual
                    else if \<not> assert_same_bus_size true_branch false_branch
                    then Inl NotSameBusSize
                    else Inr (MuxExpression choice true_branch false_branch, ts3))))"

definition parse_concat :: "var_table \<Rightarrow> Token list \<Rightarrow> Expression parsed" where
  "parse_concat vs ts =
     (case parse_argument vs ts of
        Inl e \<Rightarrow> Inl e
      | Inr (arg_beg, ts1) \<Rightarrow>
          (case parse_argument vs ts1 of
             Inl e \<Rightarrow> Inl e
           | Inr (arg_end, ts2) \<Rightarrow> Inr (ConcatExpression arg_beg arg_end, ts2)))"

definition parse_select :: "var_table \<Rightarrow> Token list \<Rightarrow> Expression parsed" where
  "parse_select vs ts =
     (case parse_bus_size ts of
        Inl e \<Rightarrow> Inl e
      | Inr (index, ts1) \<Rightarrow>
          (case parse_argument vs ts1 of
             Inl e \<Rightarrow> Inl e
           | Inr (arg, ts2) \<Rightarrow>
               if assert_bus_size_gt arg index then Inr (SelectExpression index arg, ts2)
               else Inl BusSizeNotGreater))"

definition parse_slice :: "var_table \<Rightarrow> Token list \<Rightarrow> Expression parsed" where
  "parse_slice vs ts =
     (case parse_bus_size ts of
        Inl e \<Rightarrow> Inl e
      | Inr (beg, ts1) \<Rightarrow>
          (case parse_bus_size ts1 of
             Inl e \<Rightarrow> Inl e
           | Inr (en, ts2) \<Rightarrow>
               (case parse_argument vs ts2 of
                  Inl e \<Rightarrow> Inl e
                | Inr (arg, ts3) \<Rightarrow>
                    if en \<le> beg then Inl IntervalBounds
                    else if \<not> assert_bus_size_gt arg en then Inl BusSizeNotGreater
                    else Inr (SliceExpression beg en arg, ts3))))"

definition parse_rom :: "var_table \<Rightarrow> Token list \<Rightarrow> Expression parsed" where
  "parse_rom vs ts =
     (case parse_bus_size ts of
        Inl e \<Rightarrow> Inl e
      | Inr (addr_size, ts1) \<Rightarrow>
          (case parse_bus_size ts1 of
             Inl e \<Rightarrow> Inl e
           | Inr (word_size, ts2) \<Rightarrow>
               (case parse_argument vs ts2 of
                  Inl e \<Rightarrow> Inl e
                | Inr (read_addr, ts3) \<Rightarrow>
                    if assert_bus_size_eq read_addr addr_size
                    then Inr (RomExpression addr_size word_size read_addr, ts3)
                    else Inl BusSizeNotEqual)))"

definition parse_ram :: "var_table \<Rightarrow> Token list \<Rightarrow> Expression parsed" where
  "parse_ram vs ts =
     (case parse_bus_size ts of
        Inl e \<Rightarrow> Inl e
      | Inr (addr_size, ts1) \<Rightarrow>
     (case parse_bus_size ts1 of
        Inl e \<Rightarrow> Inl e
      | Inr (word_size, ts2) \<Rightarrow>
     (case parse_argument vs ts2 of
        Inl e \<Rightarrow> Inl e
      | Inr (read_addr, ts3) \<Rightarrow>
     (case parse_argument vs ts3 of
        Inl e \<Rightarrow> Inl e
      | Inr (we, ts4) \<Rightarrow>
     (case parse_argument vs ts4 of
        Inl e \<Rightarrow> Inl e
      | Inr (wa, ts5) \<Rightarrow>
     (case parse_argument vs ts5 of
        Inl e \<Rightarrow> Inl e
      | Inr (wd, ts6) \<Rightarrow>
          if \<not> assert_bus_size_eq read_addr addr_size then Inl BusSizeNotEqual
          else if \<not> assert_bus_size_eq we 1 then Inl BusSizeNotEqual
          else if \<not> assert_bus_size_eq wa addr_size then Inl BusSizeNotEqual
          else if \<not> assert_bus_size_eq wd word_size then Inl BusSizeNotEqual
          else Inr (RamExpression addr_size word_size read_addr we wa wd, ts6)))))))"

text \<open>
  The \<open>switch\<close> of \<open>parse_expression\<close>. The bracket tokens have no \<open>case\<close>, so for them the
  function ends without a \<open>return\<close>.
\<close>

definition parse_expression :: "var_table \<Rightarrow> Token list \<Rightarrow> Expression parsed" where
  "parse_expression vs ts =
     (case kind (m_token ts) of
        IDENTIFIER \<Rightarrow>
          (case parse_variable vs ts of
             Inl e \<Rightarrow> Inl e
           | Inr (v, ts') \<Rightarrow> Inr (ArgExpression (VARIABLE v), ts'))
      | INTEGER \<Rightarrow>
          (case parse_binary_digits ts of
             Inl e \<Rightarrow> Inl e
           | Inr (c, ts') \<Rightarrow> Inr (ArgExpression (CONSTANT c), ts'))
      | BINARY_CONSTANT \<Rightarrow>
          (case parse_binary_constant ts of
             Inl e \<Rightarrow> Inl e
           | Inr (c, ts') \<Rightarrow> Inr (ArgExpression (CONSTANT c), ts'))
      | DECIMAL_CONSTANT \<Rightarrow>
          (case parse_decimal_constant ts of
             Inl e \<Rightarrow> Inl e
           | Inr (c, ts') \<Rightarrow> Inr (ArgExpression (CONSTANT c), ts'))
      | HEXADECIMAL_CONSTANT \<Rightarrow>
          (case parse_hexadecimal_constant ts of
             Inl e \<Rightarrow> Inl e
           | Inr (c, ts') \<Rightarrow> Inr (ArgExpression (CONSTANT c), ts'))
      | KEY_NOT \<Rightarrow>
          (case parse_argument vs (consume ts) of
             Inl e \<Rightarrow> Inl e
           | Inr (a, ts') \<Rightarrow> Inr (NotExpression a, ts'))
      | KEY_AND \<Rightarrow> parse_binop BinAND vs (consume ts)
      | KEY_NAND \<Rightarrow> parse_binop BinNAND vs (consume ts)
      | KEY_OR \<Rightarrow> parse_binop BinOR vs (consume ts)
      | KEY_XOR \<Rightarrow> parse_binop BinXOR vs (consume ts)
      | KEY_MUX \<Rightarrow> parse_mux vs (consume ts)
      | KEY_REG \<Rightarrow>
          (case parse_variable vs (consume ts) of
             Inl e \<Rightarrow> Inl e
           | Inr (v, ts') \<Rightarrow> Inr (RegExpression v, ts'))
      | KEY_CONCAT \<Rightarrow> parse_concat vs (consume ts)
      | KEY_SELECT \<Rightarrow> parse_select vs (consume ts)
      | KEY_SLICE \<Rightarrow> parse_slice vs (consume ts)
      | KEY_ROM \<Rightarrow> parse_rom vs (consume ts)
      | KEY_RAM \<Rightarrow> parse_ram vs (consume ts)
      | EOI \<Rightarrow> Inl MissingExpression
      | EQUAL \<Rightarrow> Inl UnexpectedToken
      | COMMA \<Rightarrow> Inl UnexpectedToken
      | COLON \<Rightarrow> Inl UnexpectedToken
      | KEY_OUTPUT \<Rightarrow> Inl UnexpectedToken
      | KEY_INPUT \<Rightarrow> Inl UnexpectedToken
      | KEY_VAR \<Rightarrow> Inl UnexpectedToken
      | KEY_IN \<Rightarrow> Inl UnexpectedToken
      | LEFT_BRACKET \<Rightarrow> Inl NoReturnValue
      | RIGHT_BRACKET \<Rightarrow> Inl NoReturnValue)"

subsection \<open>Consumed tokens\<close>

text \<open>
  Every parsing function that succeeds hands back a token list that is no longer than the
  one it was given; the loops below terminate because each round consumes a token.
\<close>

lemma consume_length: "length (consume ts) \<le> length ts"
  by (simp add: consume_def)

lemma consume_shorter: "kind (m_token ts) \<noteq> EOI \<Longrightarrow> length (consume ts) < length ts"
  by (cases ts) (simp_all add: consume_def m_token_def)

lemma parse_bus_size_length:
  "parse_bus_size ts = Inr (bs, ts') \<Longrightarrow> length ts' < length ts"
  by (auto simp: parse_bus_size_def consume_shorter split: if_splits sum.splits)

lemma parse_size_spec_length:
  "parse_size_spec ts = Inr (r, ts') \<Longrightarrow> length ts' \<le> length ts"
  using consume_length [of ts]
  by (fastforce simp: parse_size_spec_def split: if_splits sum.splits dest: parse_bus_size_length)

lemma parse_variable_length:
  "parse_variable vs ts = Inr (v, ts') \<Longrightarrow> length ts' < length ts"
  by (auto simp: parse_variable_def consume_shorter split: if_splits option.splits)

lemma parse_binary_digits_length:
  "parse_binary_digits ts = Inr (c, ts') \<Longrightarrow> length ts' < length ts"
  by (auto simp: parse_binary_digits_def consume_shorter split: if_splits sum.splits)

lemma parse_binary_constant_length:
  "parse_binary_constant ts = Inr (c, ts') \<Longrightarrow> length ts' < length ts"
  using consume_shorter [of ts]
  by (fastforce simp: parse_binary_constant_def Let_def
        split: if_splits sum.splits option.splits prod.splits dest: parse_size_spec_length)

lemma parse_decimal_constant_length:
  "parse_decimal_constant ts = Inr (c, ts') \<Longrightarrow> length ts' < length ts"
  using consume_shorter [of ts]
  by (fastforce simp: parse_decimal_constant_def
        split: if_splits sum.splits option.splits prod.splits dest: parse_size_spec_length)

lemma parse_hexadecimal_constant_length:
  "parse_hexadecimal_constant ts = Inr (c, ts') \<Longrightarrow> length ts' < length ts"
  using consume_shorter [of ts]
  by (fastforce simp: parse_hexadecimal_constant_def Let_def
        split: if_splits sum.splits option.splits prod.splits dest: parse_size_spec_length)

lemma parse_argument_length:
  "parse_argument vs ts = Inr (a, ts') \<Longrightarrow> length ts' < length ts"
  by (auto simp: parse_argument_def as_constant_def split: if_splits sum.splits
        dest: parse_variable_length parse_binary_digits_length parse_binary_constant_length
          parse_decimal_constant_length parse_hexadecimal_constant_length)

lemma parse_binop_length:
  "parse_binop k vs ts = Inr (x, ts') \<Longrightarrow> length ts' < length ts"
  by (fastforce simp: parse_binop_def split: if_splits sum.splits dest: parse_argument_length)

lemma parse_mux_length:
  "parse_mux vs ts = Inr (x, ts') \<Longrightarrow> length ts' < length ts"
  by (fastforce simp: parse_mux_def split: if_splits sum.splits dest: parse_argument_length)

lemma parse_concat_length:
  "parse_concat vs ts = Inr (x, ts') \<Longrightarrow> length ts' < length ts"
  by (fastforce simp: parse_concat_def split: if_splits sum.splits dest: parse_argument_length)

lemma parse_select_length:
  "parse_select vs ts = Inr (x, ts') \<Longrightarrow> length ts' < length ts"
  by (fastforce simp: parse_select_def split: if_splits sum.splits
        dest: parse_argument_length parse_bus_size_length)

lemma parse_slice_length:
  "parse_slice vs ts = Inr (x, ts') \<Longrightarrow> length ts' < length ts"
  by (fastforce simp: parse_slice_def split: if_splits sum.splits
        dest: parse_argument_length parse_bus_size_length)

lemma parse_rom_length:
  "parse_rom vs ts = Inr (x, ts') \<Longrightarrow> length ts' < length ts"
  by (fastforce simp: parse_rom_def split: if_splits sum.splits
        dest: parse_argument_length parse_bus_size_length)

lemma parse_ram_length:
  "parse_ram vs ts = Inr (x, ts') \<Longrightarrow> length ts' < length ts"
  by (fastforce simp: parse_ram_def split: if_splits sum.splits
        dest: parse_argument_length parse_bus_size_length)

lemma parse_expression_length:
  "parse_expression vs ts = Inr (x, ts') \<Longrightarrow> length ts' \<le> length ts"
  using consume_length [of ts]
  by (fastforce simp: parse_expression_def split: TokenKind.splits sum.splits
        dest: parse_variable_length parse_binary_digits_length parse_binary_constant_length
          parse_decimal_constant_length parse_hexadecimal_constant_length parse_argument_length
          parse_binop_length parse_mux_length parse_concat_length parse_select_length
          parse_slice_length parse_rom_length parse_ram_length)

subsection \<open>The sections of a program\<close>

text \<open>
  \<open>parse_inputs_references\<close> and \<open>parse_outputs_references\<close> are the same loop up to
  the keyword that ends the section and the message for a name given twice; the loop is
  written once, with both as parameters. The table of references is kept as the list of the
  names in the order in which the table is iterated.
\<close>

function parse_references_loop :: "TokenKind \<Rightarrow> parse_error \<Rightarrow> ident_t list \<Rightarrow> Token list
    \<Rightarrow> ident_t list parsed" where
  "parse_references_loop stop already var ts =
     (if kind (m_token ts) = stop then Inr (var, ts)
      else if kind (m_token ts) \<noteq> IDENTIFIER then Inl UnexpectedToken
      else if spelling (m_token ts) \<in> set var then Inl already
      else if kind (m_token (consume ts)) = COMMA
      then parse_references_loop stop already (var @ [spelling (m_token ts)]) (consume (consume ts))
      else if kind (m_token (consume ts)) = stop
      then parse_references_loop stop already (var @ [spelling (m_token ts)]) (consume ts)
      else Inl UnexpectedToken)"
  by pat_completeness auto
termination
proof (relation "measure (\<lambda>(stop, already, var, ts). length ts)")
  show "wf (measure (\<lambda>(stop, already, var, ts). length ts))"
    by simp
next
  fix stop :: TokenKind and already :: parse_error and var :: "ident_t list" and ts :: "Token list"
  assume "\<not> kind (m_token ts) \<noteq> IDENTIFIER"
  then have "length (consume ts) < length ts"
    by (simp add: consume_shorter)
  moreover have "length (consume (consume ts)) \<le> length (consume ts)"
    by (rule consume_length)
  ultimately show "((stop, already, var @ [spelling (m_token ts)], consume (consume ts)),
                    (stop, already, var, ts)) \<in> measure (\<lambda>(stop, already, var, ts). length ts)"
    by simp
next
  fix stop :: TokenKind and already :: parse_error and var :: "ident_t list" and ts :: "Token list"
  assume "\<not> kind (m_token ts) \<noteq> IDENTIFIER"
  then show "((stop, already, var @ [spelling (m_token ts)], consume ts),
              (stop, already, var, ts)) \<in> measure (\<lambda>(stop, already, var, ts). length ts)"
    by (simp add: consume_shorter)
qed

declare parse_references_loop.simps [simp del]

definition parse_inputs_references :: "Token list \<Rightarrow> ident_t list parsed" where
  "parse_inputs_references ts =
     (if kind (m_token ts) \<noteq> KEY_INPUT then Inl UnexpectedToken
      else parse_references_loop KEY_OUTPUT AlreadyInput [] (consume ts))"

definition parse_outputs_references :: "Token list \<Rightarrow> ident_t list parsed" where
  "parse_outputs_references ts =
     (if kind (m_token ts) \<noteq> KEY_OUTPUT then Inl UnexpectedToken
      else parse_references_loop KEY_VAR AlreadyOutput [] (consume ts))"

function parse_variables_loop :: "var_table \<Rightarrow> Token list \<Rightarrow> var_table parsed" where
  "parse_variables_loop vs ts =
     (if kind (m_token ts) = KEY_IN then Inr (vs, ts)
      else if kind (m_token ts) \<noteq> IDENTIFIER then Inl UnexpectedToken
      else (case (if kind (m_token (consume ts)) = COLON
                  then parse_bus_size (consume (consume ts))
                  else Inr (1, consume ts)) of
              Inl e \<Rightarrow> Inl e
            | Inr (sz, ts1) \<Rightarrow>
                if map_of vs (spelling (m_token ts)) \<noteq> None then Inl AlreadyDeclared
                else if kind (m_token ts1) = COMMA
                then (if kind (m_token (consume ts1)) \<noteq> IDENTIFIER then Inl UnexpectedToken
                      else parse_variables_loop
                             (vs @ [(spelling (m_token ts), Variable sz (spelling (m_token ts)))])
                             (consume ts1))
                else if kind (m_token ts1) = KEY_IN
                then parse_variables_loop
                       (vs @ [(spelling (m_token ts), Variable sz (spelling (m_token ts)))]) ts1
                else Inl UnexpectedToken))"
  by pat_completeness auto
termination
proof (relation "measure (\<lambda>(vs, ts). length ts)")
  show "wf (measure (\<lambda>(vs, ts). length ts))"
    by simp
next
  fix vs :: var_table and ts :: "Token list" and x :: "bus_size_t \<times> Token list"
    and sz :: bus_size_t and ts1 :: "Token list"
  assume id: "\<not> kind (m_token ts) \<noteq> IDENTIFIER"
    and r: "(if kind (m_token (consume ts)) = COLON then parse_bus_size (consume (consume ts))
             else Inr (1, consume ts)) = Inr x"
    and x: "(sz, ts1) = x"
  from id have a: "length (consume ts) < length ts"
    by (simp add: consume_shorter)
  from r x have b: "length ts1 \<le> length (consume ts)"
    using parse_bus_size_length [of "consume (consume ts)" sz ts1] consume_length [of "consume ts"]
    by (auto split: if_splits)
  have c: "length (consume ts1) \<le> length ts1"
    by (rule consume_length)
  from a b c show "((vs @ [(spelling (m_token ts), Variable sz (spelling (m_token ts)))], consume ts1),
     (vs, ts)) \<in> measure (\<lambda>(vs, ts). length ts)"
    by simp
  from a b show "((vs @ [(spelling (m_token ts), Variable sz (spelling (m_token ts)))], ts1),
     (vs, ts)) \<in> measure (\<lambda>(vs, ts). length ts)"
    by simp
qed

declare parse_variables_loop.simps [simp del]

definition parse_variable_declaration :: "Token list \<Rightarrow> var_table parsed" where
  "parse_variable_declaration ts =
     (if kind (m_token ts) \<noteq> KEY_VAR then Inl UnexpectedToken
      else parse_variables_loop [] (consume ts))"

fun lookup_references :: "parse_error \<Rightarrow> var_table \<Rightarrow> ident_t list \<Rightarrow> parse_error + Variable list" where
  "lookup_references missing vs [] = Inr []"
| "lookup_references missing vs (r # refs) =
     (case map_of vs r of
        None \<Rightarrow> Inl missing
      | Some v \<Rightarrow>
          (case lookup_references missing vs refs of
             Inl e \<Rightarrow> Inl e
           | Inr found \<Rightarrow> Inr (v # found)))"

definition build_intput_output_list :: "var_table \<Rightarrow> ident_t list \<Rightarrow> ident_t list
    \<Rightarrow> parse_error + (Variable list \<times> Variable list)" where
  "build_intput_output_list vs in_refs out_refs =
     (case lookup_references MissingInputDeclaration vs in_refs of
        Inl e \<Rightarrow> Inl e
      | Inr ins \<Rightarrow>
          (case lookup_references MissingOutputDeclaration vs out_refs of
             Inl e \<Rightarrow> Inl e
           | Inr outs \<Rightarrow> Inr (ins, outs)))"

text \<open>
  The loop of \<open>parse_equations\<close>. The test that compares the bus size of the expression
  with the one of the assigned variable has an empty body in the source, so both of its
  branches go on with \<open>try_emplace\<close>.
\<close>

function parse_equations_loop :: "var_table \<Rightarrow> (Variable \<times> Expression) list \<Rightarrow> Token list
    \<Rightarrow> (Variable \<times> Expression) list parsed" where
  "parse_equations_loop vs eqs ts =
     (if kind (m_token ts) = EOI then Inr (eqs, ts)
      else if kind (m_token ts) \<noteq> IDENTIFIER then Inl UnexpectedToken
      else (case map_of vs (spelling (m_token ts)) of
              None \<Rightarrow> Inl AssignmentOfUndefined
            | Some assigment_var \<Rightarrow>
                if kind (m_token (consume ts)) \<noteq> EQUAL then Inl UnexpectedToken
                else (case parse_expression vs (consume (consume ts)) of
                        Inl e \<Rightarrow> Inl e
                      | Inr (eq, ts') \<Rightarrow>
                          if get_bus_size eq \<noteq> var_bus_size assigment_var
                          then parse_equations_loop vs (emplace assigment_var eq eqs) ts'
                          else parse_equations_loop vs (emplace assigment_var eq eqs) ts')))"
  by pat_completeness auto
termination
proof (relation "measure (\<lambda>(vs, eqs, ts). length ts)")
  show "wf (measure (\<lambda>(vs, eqs, ts). length ts))"
    by simp
next
  fix vs :: var_table and eqs :: "(Variable \<times> Expression) list" and ts :: "Token list"
    and assigment_var :: Variable and x :: "Expression \<times> Token list" and eq :: Expression
    and ts' :: "Token list"
  assume id: "\<not> kind (m_token ts) \<noteq> IDENTIFIER"
    and r: "parse_expression vs (consume (consume ts)) = Inr x" and x: "(eq, ts') = x"
  from id have a: "length (consume ts) < length ts"
    by (simp add: consume_shorter)
  from r x have "length ts' \<le> length (consume (consume ts))"
    by (auto dest: parse_expression_length)
  with a consume_length [of "consume ts"]
  have "length ts' < length ts"
    by simp
  then show "((vs, emplace assigment_var eq eqs, ts'), (vs, eqs, ts)) \<in> measure (\<lambda>(vs, eqs, ts). length ts)"
    by simp
  then show "((vs, emplace assigment_var eq eqs, ts'), (vs, eqs, ts)) \<in> measure (\<lambda>(vs, eqs, ts). length ts)"
    by simp
qed

declare parse_equations_loop.simps [simp del]

definition parse_equations :: "var_table \<Rightarrow> Token list \<Rightarrow> (Variable \<times> Expression) list parsed" where
  "parse_equations vs ts =
     (if kind (m_token ts) \<noteq> KEY_IN then Inl UnexpectedToken
      else parse_equations_loop vs [] (consume ts))"

text \<open>
  The last loop of \<open>parse_program\<close>: every declared variable is an input or has an
  equation.
\<close>

fun check_equations :: "ident_t list \<Rightarrow> (Variable \<times> Expression) list \<Rightarrow> var_table
    \<Rightarrow> parse_error + Variable list" where
  "check_equations in_refs eqs [] = Inr []"
| "check_equations in_refs eqs ((n, declared_var) # rest) =
     (if var_name declared_var \<in> set in_refs \<or> map_of eqs declared_var \<noteq> None
      then (case check_equations in_refs eqs rest of
              Inl e \<Rightarrow> Inl e
            | Inr declared \<Rightarrow> Inr (declared_var # declared))
      else Inl NoEquation)"

definition parse_program :: "Token list \<Rightarrow> parse_error + Program" where
  "parse_program ts =
     (case parse_inputs_references ts of
        Inl e \<Rightarrow> Inl e
      | Inr (in_refs, ts1) \<Rightarrow>
     (case parse_outputs_references ts1 of
        Inl e \<Rightarrow> Inl e
      | Inr (out_refs, ts2) \<Rightarrow>
     (case parse_variable_declaration ts2 of
        Inl e \<Rightarrow> Inl e
      | Inr (vs, ts3) \<Rightarrow>
     (case build_intput_output_list vs in_refs out_refs of
        Inl e \<Rightarrow> Inl e
      | Inr (ins, outs) \<Rightarrow>
     (case parse_equations vs ts3 of
        Inl e \<Rightarrow> Inl e
      | Inr (eqs, ts4) \<Rightarrow>
     (case check_equations in_refs eqs vs of
        Inl e \<Rightarrow> Inl e
      | Inr declared \<Rightarrow>
          Inr \<lparr>m_input = ins, m_output = outs, m_vars = declared, m_eq = eqs\<rparr>))))))"

section \<open>Example sources\<close>

text \<open>
  A token with its kind, its spelling and the character that follows it in the buffer.
\<close>

definition tok :: "TokenKind \<Rightarrow> string \<Rightarrow> char \<Rightarrow> Token" where
  "tok k s c = \<lparr>kind = k, spelling = s, following = c\<rparr>"

text \<open>
  The tokens of
  \<^verbatim>\<open>INPUT a, b\<close> / \<^verbatim>\<open>OUTPUT o\<close> / \<^verbatim>\<open>VAR a, b, o\<close> / \<^verbatim>\<open>IN\<close> / \<^verbatim>\<open>o = CONCAT a b\<close>
  (one line each): the one-bit variable \<open>o\<close> is bound to a two-bit expression.
\<close>

definition wide_concat_tokens :: "Token list" where
  "wide_concat_tokens =
     [tok KEY_INPUT ''INPUT'' CHR '' '', tok IDENTIFIER ''a'' CHR '','', tok COMMA '','' CHR '' '',
      tok IDENTIFIER ''b'' CHR 0x0A,
      tok KEY_OUTPUT ''OUTPUT'' CHR '' '', tok IDENTIFIER ''o'' CHR 0x0A,
      tok KEY_VAR ''VAR'' CHR '' '', tok IDENTIFIER ''a'' CHR '','', tok COMMA '','' CHR '' '',
      tok IDENTIFIER ''b'' CHR '','', tok COMMA '','' CHR '' '', tok IDENTIFIER ''o'' CHR 0x0A,
      tok KEY_IN ''IN'' CHR 0x0A,
      tok IDENTIFIER ''o'' CHR '' '', tok EQUAL ''='' CHR '' '', tok KEY_CONCAT ''CONCAT'' CHR '' '',
      tok IDENTIFIER ''a'' CHR '' '', tok IDENTIFIER ''b'' CHR 0x0A]"

text \<open>
  The tokens of
  \<^verbatim>\<open>INPUT a\<close> / \<^verbatim>\<open>OUTPUT o\<close> / \<^verbatim>\<open>VAR a, o\<close> / \<^verbatim>\<open>IN\<close> / \<^verbatim>\<open>o = 0b11\<close>,
  the constant being the last characters of the input: a one-bit variable bound to a
  two-bit constant.
\<close>

definition wide_constant_tokens :: "Token list" where
  "wide_constant_tokens =
     [tok KEY_INPUT ''INPUT'' CHR '' '', tok IDENTIFIER ''a'' CHR 0x0A,
      tok KEY_OUTPUT ''OUTPUT'' CHR '' '', tok IDENTIFIER ''o'' CHR 0x0A,
      tok KEY_VAR ''VAR'' CHR '' '', tok IDENTIFIER ''a'' CHR '','', tok COMMA '','' CHR '' '',
      tok IDENTIFIER ''o'' CHR 0x0A,
      tok KEY_IN ''IN'' CHR 0x0A,
      tok IDENTIFIER ''o'' CHR '' '', tok EQUAL ''='' CHR '' '',
      tok BINARY_CONSTANT ''11'' CHR 0x00]"

text \<open>
  The tokens of
  \<^verbatim>\<open>INPUT a\<close> / \<^verbatim>\<open>OUTPUT o\<close> / \<^verbatim>\<open>VAR a, o\<close> / \<^verbatim>\<open>IN\<close> / \<^verbatim>\<open>o = a\<close> / \<^verbatim>\<open>o = NOT a\<close>:
  two equations for \<open>o\<close>.
\<close>

definition twice_assigned_tokens :: "Token list" where
  "twice_assigned_tokens =
     [tok KEY_INPUT ''INPUT'' CHR '' '', tok IDENTIFIER ''a'' CHR 0x0A,
      tok KEY_OUTPUT ''OUTPUT'' CHR '' '', tok IDENTIFIER ''o'' CHR 0x0A,
      tok KEY_VAR ''VAR'' CHR '' '', tok IDENTIFIER ''a'' CHR '','', tok COMMA '','' CHR '' '',
      tok IDENTIFIER ''o'' CHR 0x0A,
      tok KEY_IN ''IN'' CHR 0x0A,
      tok IDENTIFIER ''o'' CHR '' '', tok EQUAL ''='' CHR '' '', tok IDENTIFIER ''a'' CHR 0x0A,
      tok IDENTIFIER ''o'' CHR '' '', tok EQUAL ''='' CHR '' '', tok KEY_NOT ''NOT'' CHR '' '',
      tok IDENTIFIER ''a'' CHR 0x0A]"




section \<open>Example circuits\<close>

text \<open>
  The identity register of the end-to-end scenarios:
  \<^verbatim>\<open>INPUT a OUTPUT o VAR a, o IN o = REG a\<close>, fed with \<open>a = 1, 0, 1, 1\<close>.
\<close>

definition reg_a :: Variable where
  "reg_a = Variable 1 ''a''"

definition reg_o :: Variable where
  "reg_o = Variable 1 ''o''"

definition identity_register :: Program where
  "identity_register =
     \<lparr>m_input = [reg_a], m_output = [reg_o], m_vars = [reg_a, reg_o],
      m_eq = [(reg_o, RegExpression reg_a)]\<rparr>"

definition identity_register_start :: Simulator where
  "identity_register_start =
     \<lparr>prog = identity_register, dep_list = [reg_o],
      mem_map = \<lparr>reg_info = [(reg_a, 0)], ram_info = [], rom_info = [], current_index = 1\<rparr>,
      memory = [0], env = [reg_o \<mapsto> 0]\<rparr>"

definition feed_a :: "(ident_t \<Rightarrow> value_t) list" where
  "feed_a = [\<lambda>_. 1, \<lambda>_. 0, \<lambda>_. 1, \<lambda>_. 1]"

text \<open>
  A one-bit inverter: \<^verbatim>\<open>INPUT x OUTPUT y VAR x, y IN y = NOT x\<close>.
\<close>

definition inv_x :: Variable where
  "inv_x = Variable 1 ''x''"

definition inv_y :: Variable where
  "inv_y = Variable 1 ''y''"

definition inverter :: Program where
  "inverter =
     \<lparr>m_input = [inv_x], m_output = [inv_y], m_vars = [inv_x, inv_y],
      m_eq = [(inv_y, NotExpression (VARIABLE inv_x))]\<rparr>"

definition inverter_start :: Simulator where
  "inverter_start =
     \<lparr>prog = inverter, dep_list = [inv_y],
      mem_map = \<lparr>reg_info = [], ram_info = [], rom_info = [], current_index = 0\<rparr>,
      memory = [], env = [inv_y \<mapsto> 0]\<rparr>"

text \<open>
  A register next to a RAM whose write address is an inverted input:
  \<^verbatim>\<open>INPUT x, e OUTPUT r VAR x, e, nx, r, m IN r = REG x  m = RAM 1 1 x e nx e  nx = NOT x\<close>.
  The equation table is iterated as \<open>r, m, nx\<close>, so the slot that backs \<open>REG x\<close> is word 0
  of the memory array and the RAM block is words 1 and 2. The schedule evaluates \<open>nx\<close>
  before \<open>m\<close>. The input \<open>x\<close> is held at 0 and \<open>e\<close> at 1.
\<close>

definition rr_x :: Variable where
  "rr_x = Variable 1 ''x''"

definition rr_e :: Variable where
  "rr_e = Variable 1 ''e''"

definition rr_nx :: Variable where
  "rr_nx = Variable 1 ''nx''"

definition rr_r :: Variable where
  "rr_r = Variable 1 ''r''"

definition rr_m :: Variable where
  "rr_m = Variable 1 ''m''"

definition reg_beside_ram :: Program where
  "reg_beside_ram =
     \<lparr>m_input = [rr_x, rr_e], m_output = [rr_r], m_vars = [rr_x, rr_e, rr_nx, rr_r, rr_m],
      m_eq = [(rr_r, RegExpression rr_x),
              (rr_m, RamExpression 1 1 (VARIABLE rr_x) (VARIABLE rr_e) (VARIABLE rr_nx) (VARIABLE rr_e)),
              (rr_nx, NotExpression (VARIABLE rr_x))]\<rparr>"

definition reg_beside_ram_start :: Simulator where
  "reg_beside_ram_start =
     \<lparr>prog = reg_beside_ram, dep_list = [rr_nx, rr_r, rr_m],
      mem_map = \<lparr>reg_info = [(rr_x, 0)],
                 ram_info = [(''m'', RamInfo (VARIABLE rr_e) (VARIABLE rr_nx) (VARIABLE rr_e) 1 2)],
                 rom_info = [], current_index = 3\<rparr>,
      memory = [0, 0, 0], env = [rr_r \<mapsto> 0, rr_m \<mapsto> 0, rr_nx \<mapsto> 0]\<rparr>"

definition hold_x0_e1 :: "ident_t \<Rightarrow> value_t" where
  "hold_x0_e1 n = (if n = ''e'' then 1 else 0)"

text \<open>
  The two-entry ROM of the end-to-end scenarios:
  \<^verbatim>\<open>INPUT addr OUTPUT d VAR addr:1, d:4 IN d = ROM 1 4 addr\<close>.
\<close>

definition rom_addr :: Variable where
  "rom_addr = Variable 1 ''addr''"

definition rom_d :: Variable where
  "rom_d = Variable 4 ''d''"

definition two_entry_rom :: Program where
  "two_entry_rom =
     \<lparr>m_input = [rom_addr], m_output = [rom_d], m_vars = [rom_addr, rom_d],
      m_eq = [(rom_d, RomExpression 1 4 (VARIABLE rom_addr))]\<rparr>"

definition two_entry_rom_mapper :: MemoryMapper where
  "two_entry_rom_mapper =
     \<lparr>reg_info = [], ram_info = [], rom_info = [(''d'', RomInfo 0 2)], current_index = 2\<rparr>"

definition two_entry_rom_start :: "value_t list \<Rightarrow> Simulator" where
  "two_entry_rom_start mem =
     \<lparr>prog = two_entry_rom, dep_list = [rom_d], mem_map = two_entry_rom_mapper,
      memory = mem, env = [rom_d \<mapsto> 0]\<rparr>"

text \<open>
  The RAM of the read-before-write scenario, one address bit and four data bits, all four
  arguments being inputs:
  \<^verbatim>\<open>INPUT ra, we, wa, wd OUTPUT q VAR ra, we, wa, wd:4, q:4 IN q = RAM 1 4 ra we wa wd\<close>.
\<close>

definition ram_ra :: Variable where
  "ram_ra = Variable 1 ''ra''"

definition ram_we :: Variable where
  "ram_we = Variable 1 ''we''"

definition ram_wa :: Variable where
  "ram_wa = Variable 1 ''wa''"

definition ram_wd :: Variable where
  "ram_wd = Variable 4 ''wd''"

definition ram_q :: Variable where
  "ram_q = Variable 4 ''q''"

definition small_ram :: Program where
  "small_ram =
     \<lparr>m_input = [ram_ra, ram_we, ram_wa, ram_wd], m_output = [ram_q],
      m_vars = [ram_ra, ram_we, ram_wa, ram_wd, ram_q],
      m_eq = [(ram_q, RamExpression 1 4 (VARIABLE ram_ra) (VARIABLE ram_we)
                        (VARIABLE ram_wa) (VARIABLE ram_wd))]\<rparr>"

definition small_ram_start :: Simulator where
  "small_ram_start =
     \<lparr>prog = small_ram, dep_list = [ram_q],
      mem_map = \<lparr>reg_info = [],
                 ram_info = [(''q'', RamInfo (VARIABLE ram_we) (VARIABLE ram_wa) (VARIABLE ram_wd) 0 2)],
                 rom_info = [], current_index = 2\<rparr>,
      memory = [0, 0], env = [ram_q \<mapsto> 0]\<rparr>"

definition write_15_at_0 :: "ident_t \<Rightarrow> value_t" where
  "write_15_at_0 n = (if n = ''we'' then 1 else if n = ''wd'' then 15 else 0)"

section \<open>Properties of the simulator\<close>

lemmas ctor_defs = Simulator_new_def MemoryMapper_new_def emplace_def shl_one_def
  load_chunk_def copy_chunk_def

lemmas run_defs = cycle_def env_at_def mem_at_def eval_arg_def Let_def

lemma mem_offset_wrap: "mem_offset (Suc 0) (- 1) = 0"
  by (simp add: mem_offset_def unsigned_minus_1_eq_mask mask_eq_exp_minus_1)

lemma mem_offset_0: "b < 2 ^ 64 \<Longrightarrow> mem_offset b 0 = b"
  by (simp add: mem_offset_def)

subsection \<open>What each phase of a cycle leaves alone\<close>

lemma eval_equations_frame:
  "eval_equations dl s = Inr s' \<Longrightarrow>
     memory s' = memory s \<and> mem_map s' = mem_map s \<and> prog s' = prog s \<and> dep_list s' = dep_list s"
proof (induction dl arbitrary: s)
  case Nil
  then show ?case by simp
next
  case (Cons var rest)
  then show ?case
    by (fastforce split: option.splits sum.splits)
qed

lemma eval_equations_append:
  "eval_equations (xs @ ys) s =
     (case eval_equations xs s of Inl f \<Rightarrow> Inl f | Inr s1 \<Rightarrow> eval_equations ys s1)"
  by (induction xs arbitrary: s) (auto split: option.splits sum.splits)

lemma eval_equations_other:
  "eval_equations dl s = Inr s' \<Longrightarrow> v \<notin> set dl \<Longrightarrow> env s' v = env s v"
proof (induction dl arbitrary: s)
  case Nil
  then show ?case by simp
next
  case (Cons var rest)
  then show ?case
    by (fastforce split: option.splits sum.splits)
qed

lemma save_registers_frame:
  "save_registers rs s = Inr s' \<Longrightarrow>
     env s' = env s \<and> mem_map s' = mem_map s \<and> prog s' = prog s \<and> dep_list s' = dep_list s
     \<and> length (memory s') = length (memory s)"
proof (induction rs arbitrary: s)
  case Nil
  then show ?case by simp
next
  case (Cons r rest)
  then show ?case
    by (cases r) (fastforce split: sum.splits if_splits)
qed

lemma ram_writes_frame:
  "ram_writes ws s = Inr s' \<Longrightarrow>
     env s' = env s \<and> mem_map s' = mem_map s \<and> prog s' = prog s \<and> dep_list s' = dep_list s
     \<and> length (memory s') = length (memory s)"
proof (induction ws arbitrary: s)
  case Nil
  then show ?case by simp
next
  case (Cons w rest)
  then show ?case
    by (cases w) (fastforce simp: Let_def split: sum.splits if_splits)
qed

text \<open>
  The register save writes each slot once, and a RAM write touches one word only.
\<close>

lemma eval_arg_env: "env s = env t \<Longrightarrow> eval_arg s arg = eval_arg t arg"
  by (cases arg) (simp_all add: eval_arg_def)

lemma save_registers_untouched:
  "save_registers rs s = Inr s' \<Longrightarrow> i \<notin> snd ` set rs \<Longrightarrow> memory s' ! i = memory s ! i"
proof (induction rs arbitrary: s)
  case Nil
  then show ?case by simp
next
  case (Cons r rest)
  obtain u j where r: "r = (u, j)" by (cases r)
  from Cons.prems r obtain x where
      x: "env_at (env s) u = Inr x" and j: "j < length (memory s)"
    and rec: "save_registers rest (s\<lparr>memory := (memory s)[j := x]\<rparr>) = Inr s'"
    by (auto split: sum.splits if_splits)
  from Cons.prems r have "i \<noteq> j" and "i \<notin> snd ` set rest" by auto
  with Cons.IH [OF rec] show ?case by simp
qed

lemma save_registers_slot:
  "save_registers rs s = Inr s' \<Longrightarrow> distinct (map snd rs) \<Longrightarrow> (u, i) \<in> set rs
   \<Longrightarrow> env s u = Some (memory s' ! i)"
proof (induction rs arbitrary: s)
  case Nil
  then show ?case by simp
next
  case (Cons r rest)
  obtain w j where r: "r = (w, j)" by (cases r)
  from Cons.prems r obtain x where
      x: "env_at (env s) w = Inr x" and j: "j < length (memory s)"
    and rec: "save_registers rest (s\<lparr>memory := (memory s)[j := x]\<rparr>) = Inr s'"
    by (auto split: sum.splits if_splits)
  show ?case
  proof (cases "(u, i) = (w, j)")
    case True
    from Cons.prems r have "j \<notin> snd ` set rest" by auto
    from save_registers_untouched [OF rec this] j have "memory s' ! j = x" by simp
    with x True show ?thesis
      by (auto simp: env_at_def split: option.splits)
  next
    case False
    with Cons.prems r have "(u, i) \<in> set rest" and "distinct (map snd rest)" by auto
    with Cons.IH [OF rec] show ?thesis by simp
  qed
qed

lemma ram_writes_untouched:
  "ram_writes ws s = Inr s' \<Longrightarrow>
   \<forall>(n, info) \<in> set ws. \<forall>a. eval_arg s (write_addr info) = Inr a
        \<longrightarrow> mem_offset (ram_block_index info) a \<noteq> i
   \<Longrightarrow> memory s' ! i = memory s ! i"
proof (induction ws arbitrary: s)
  case Nil
  then show ?case by simp
next
  case (Cons w rest)
  obtain n info where w: "w = (n, info)" by (cases w)
  from Cons.prems(2) w have
      here: "\<forall>a. eval_arg s (write_addr info) = Inr a \<longrightarrow> mem_offset (ram_block_index info) a \<noteq> i"
    and later: "\<forall>(n, info) \<in> set rest. \<forall>a. eval_arg s (write_addr info) = Inr a
        \<longrightarrow> mem_offset (ram_block_index info) a \<noteq> i"
    by auto
  from Cons.prems(1) w obtain we where we: "eval_arg s (write_enable info) = Inr we"
    by (auto split: sum.splits)
  show ?case
  proof (cases "we = 0")
    case True
    with Cons.prems(1) w we have "ram_writes rest s = Inr s'" by simp
    from Cons.IH [OF this later] show ?thesis .
  next
    case False
    with Cons.prems(1) w we obtain d a where
        a: "eval_arg s (write_addr info) = Inr a"
      and rec: "ram_writes rest (s\<lparr>memory := (memory s)[mem_offset (ram_block_index info) a := d]\<rparr>) = Inr s'"
      by (auto simp: Let_def split: sum.splits if_splits)
    let ?s = "s\<lparr>memory := (memory s)[mem_offset (ram_block_index info) a := d]\<rparr>"
    have same: "\<And>arg. eval_arg ?s arg = eval_arg s arg"
      by (rule eval_arg_env) simp
    from later have later': "\<forall>(n, info) \<in> set rest. \<forall>a. eval_arg ?s (write_addr info) = Inr a
        \<longrightarrow> mem_offset (ram_block_index info) a \<noteq> i"
      by (simp add: same)
    from here a have "mem_offset (ram_block_index info) a \<noteq> i" by simp
    with Cons.IH [OF rec later'] show ?thesis by simp
  qed
qed

lemma ram_writes_append:
  "ram_writes (xs @ ys) s =
     (case ram_writes xs s of Inl f \<Rightarrow> Inl f | Inr s1 \<Rightarrow> ram_writes ys s1)"
proof (induction xs arbitrary: s)
  case Nil
  then show ?case by simp
next
  case (Cons w rest)
  then show ?case
    by (cases w) (simp add: Let_def split: sum.splits)
qed

text \<open>A traced run is a run of \<open>simulate\<close>: it fails exactly when \<open>simulate\<close> fails.\<close>

lemma trace_simulate:
  "(\<exists>vs. trace v inps s = Inr vs) = (\<exists>s'. simulate inps s = Inr s')"
proof (induction inps arbitrary: s)
  case Nil
  then show ?case by simp
next
  case (Cons inp rest)
  show ?case
  proof (cases "cycle inp s")
    case (Inl f)
    then show ?thesis by simp
  next
    case (Inr s1)
    with Cons [of s1] show ?thesis
      by (auto split: sum.splits)
  qed
qed

lemma trace_length: "trace v inps s = Inr vs \<Longrightarrow> length vs = length inps"
  by (induction inps arbitrary: s vs) (auto split: sum.splits)

subsection \<open>Input binding\<close>

text \<open>
  An input that already has a slot in the environment keeps its old value: \<open>emplace\<close> does
  not overwrite. From the second cycle on every input has a slot.
\<close>

lemma bind_inputs_keeps_bound:
  "e v = Some x \<Longrightarrow> bind_inputs get_input_value ins e v = Some x"
proof (induction ins arbitrary: e)
  case Nil
  then show ?case by simp
next
  case (Cons i rest)
  show ?case
  proof (cases "e i")
    case None
    with Cons.prems have "i \<noteq> v" by auto
    with Cons.prems have "(e(i \<mapsto> get_input_value (var_name i))) v = Some x" by simp
    then have "bind_inputs get_input_value rest (e(i \<mapsto> get_input_value (var_name i))) v = Some x"
      by (rule Cons.IH)
    with None show ?thesis by simp
  next
    case (Some y)
    with Cons show ?thesis by simp
  qed
qed

lemma bind_inputs_binds:
  "v \<in> set ins \<Longrightarrow> \<exists>x. bind_inputs get_input_value ins e v = Some x"
proof (induction ins arbitrary: e)
  case Nil
  then show ?case by simp
next
  case (Cons i rest)
  show ?case
  proof (cases "v = i")
    case True
    then show ?thesis
      by (cases "e i") (simp_all add: bind_inputs_keeps_bound)
  next
    case False
    with Cons show ?thesis by simp
  qed
qed

text \<open>
  So a variable that holds a value and is not the target of a scheduled equation keeps that
  value through a cycle, whatever the input manager supplies.
\<close>

lemma cycle_keeps_bound_inputs:
  assumes "cycle g s = Inr s'" and "env s v = Some x" and "v \<notin> set (dep_list s)"
  shows "env s' v = Some x"
proof -
  let ?b = "s\<lparr>env := bind_inputs g (m_input (prog s)) (env s)\<rparr>"
  from assms(1) obtain sa sb where
      e1: "eval_equations (dep_list s) ?b = Inr sa"
    and e2: "save_registers (reg_info (mem_map sa)) sa = Inr sb"
    and e3: "ram_writes (ram_info (mem_map sb)) sb = Inr s'"
    by (auto simp: cycle_def split: sum.splits)
  have "env s' = env sa"
    using save_registers_frame [OF e2] ram_writes_frame [OF e3] by simp
  moreover have "env sa v = env ?b v"
    using eval_equations_other [OF e1] assms(3) by simp
  moreover have "env ?b v = Some x"
    using assms(2) by (simp add: bind_inputs_keeps_bound)
  ultimately show ?thesis by simp
qed

text \<open>
  C1. The claim: every call of \<open>cycle\<close> writes the value supplied for that cycle into the
  environment for every input, so feeding \<open>a = 1, 0, 1, 1\<close> to the identity register gives
  \<open>o = 0, 1, 0, 1\<close>. The code: the simulator built for the identity register, run on that
  feed, shows \<open>o = 0, 1, 1, 1\<close>; the value bound in the first cycle is never replaced.
\<close>

theorem identity_register_run:
  "Simulator_new junk [] [reg_o] identity_register = Inr ([], identity_register_start)
   \<and> trace reg_a feed_a identity_register_start = Inr [Some 1, Some 1, Some 1, Some 1]
   \<and> trace reg_o feed_a identity_register_start = Inr [Some 0, Some 1, Some 1, Some 1]"
proof -
  have "Simulator_new junk [] [reg_o] identity_register = Inr ([], identity_register_start)"
    by (simp add: ctor_defs reg_a_def reg_o_def identity_register_def identity_register_start_def feed_a_def)
  moreover have "trace reg_a feed_a identity_register_start = Inr [Some 1, Some 1, Some 1, Some 1]"
    by (simp add: run_defs reg_a_def reg_o_def identity_register_def identity_register_start_def feed_a_def)
  moreover have "trace reg_o feed_a identity_register_start = Inr [Some 0, Some 1, Some 1, Some 1]"
    by (simp add: run_defs reg_a_def reg_o_def identity_register_def identity_register_start_def feed_a_def)
  ultimately show ?thesis by simp
qed

subsection \<open>Registers\<close>

text \<open>
  The memory mapper gives every \<open>REG\<close> source a word of its own.
\<close>

lemma mapper_visit_slots:
  assumes "mapper_visit var eq mm = Inr mm'"
    and "distinct (map snd (reg_info mm))" and "\<forall>i \<in> snd ` set (reg_info mm). i < current_index mm"
  shows "distinct (map snd (reg_info mm')) \<and> (\<forall>i \<in> snd ` set (reg_info mm'). i < current_index mm')"
proof (cases eq)
  case (RegExpression u)
  show ?thesis
  proof (cases "map_of (reg_info mm) u")
    case None
    with assms RegExpression have
        mm': "mm' = mm\<lparr>reg_info := reg_info mm @ [(u, current_index mm)],
                        current_index := current_index mm + 1\<rparr>"
      by simp
    from assms(3) have fresh: "current_index mm \<notin> snd ` set (reg_info mm)"
      by auto
    from assms(3) have below: "\<forall>i \<in> snd ` set (reg_info mm). i < current_index mm + 1"
      by auto
    from mm' assms(2) fresh below show ?thesis
      by simp
  next
    case (Some i)
    with assms RegExpression show ?thesis by simp
  qed
next
  case (RomExpression as ws ra)
  with assms show ?thesis
    by (fastforce split: sum.splits)
next
  case (RamExpression as ws ra we wa wd)
  with assms show ?thesis
    by (fastforce split: sum.splits)
qed (use assms in auto)

lemma mapper_loop_slots:
  "mapper_loop eqs mm = Inr mm' \<Longrightarrow> distinct (map snd (reg_info mm))
   \<Longrightarrow> \<forall>i \<in> snd ` set (reg_info mm). i < current_index mm
   \<Longrightarrow> distinct (map snd (reg_info mm')) \<and> (\<forall>i \<in> snd ` set (reg_info mm'). i < current_index mm')"
proof (induction eqs arbitrary: mm)
  case Nil
  then show ?case by simp
next
  case (Cons e rest)
  obtain var eq where e: "e = (var, eq)" by (cases e)
  from Cons.prems(1) e obtain m1 where
      v: "mapper_visit var eq mm = Inr m1" and l: "mapper_loop rest m1 = Inr mm'"
    by (auto split: sum.splits)
  from mapper_visit_slots [OF v Cons.prems(2) Cons.prems(3)] Cons.IH [OF l]
  show ?case by blast
qed

lemma Simulator_new_slots:
  "Simulator_new junk memory_blocks schedule p = Inr (reports, s)
   \<Longrightarrow> distinct (map snd (reg_info (mem_map s)))"
proof -
  assume a: "Simulator_new junk memory_blocks schedule p = Inr (reports, s)"
  then obtain mm where m: "MemoryMapper_new p = Inr mm" and s: "mem_map s = mm"
    by (auto simp: Simulator_new_def split: sum.splits)
  from m have "distinct (map snd (reg_info mm))"
    using mapper_loop_slots [of "m_eq p"
        "\<lparr>reg_info = [], ram_info = [], rom_info = [], current_index = 0\<rparr>" mm]
    by (simp add: MemoryMapper_new_def)
  with s show ?thesis by simp
qed

text \<open>
  Without memory chunks the memory array starts as zeros, and a \<open>REG\<close> equation evaluated
  on a memory of zeros yields 0.
\<close>

lemma load_no_chunks_memory:
  "Simulator_new junk [] schedule p = Inr (reports, s) \<Longrightarrow> \<forall>x \<in> set (memory s). x = 0"
  by (auto simp: Simulator_new_def split: sum.splits)

lemma reg_reads_zero_first:
  assumes c1: "cycle g s = Inr s1"
    and zero: "\<forall>x \<in> set (memory s). x = 0"
    and eq: "map_of (m_eq (prog s)) v = Some (RegExpression u)"
    and sched: "dep_list s = pre @ v # post" and last: "v \<notin> set post"
  shows "env s1 v = Some 0"
proof -
  let ?b = "s\<lparr>env := bind_inputs g (m_input (prog s)) (env s)\<rparr>"
  from c1 obtain sa sb where
      e1: "eval_equations (dep_list s) ?b = Inr sa"
    and e2: "save_registers (reg_info (mem_map sa)) sa = Inr sb"
    and e3: "ram_writes (ram_info (mem_map sb)) sb = Inr s1"
    by (auto simp: cycle_def split: sum.splits)
  have fa: "mem_map sa = mem_map s"
    using eval_equations_frame [OF e1] by simp
  have fb: "env sb = env sa" "mem_map sb = mem_map s"
    using save_registers_frame [OF e2] fa by simp_all
  have f1: "env s1 = env sa"
    using ram_writes_frame [OF e3] fb by simp
  from e1 sched obtain t0 where
      p0: "eval_equations pre ?b = Inr t0" and p1: "eval_equations (v # post) t0 = Inr sa"
    by (auto simp: eval_equations_append split: sum.splits)
  have h0: "memory t0 = memory s" "mem_map t0 = mem_map s" "prog t0 = prog s"
    using eval_equations_frame [OF p0] by simp_all
  from p1 eq h0 obtain x where
      x1: "eval (env t0) (memory s) (mem_map s) v (RegExpression u) = Inr x"
    and x2: "eval_equations post (t0\<lparr>env := (env t0)(v \<mapsto> x)\<rparr>) = Inr sa"
    by (auto split: sum.splits)
  from x1 obtain i where "i < length (memory s)" and "x = memory s ! i"
    by (auto simp: mem_at_def split: option.splits if_splits)
  with zero have "x = 0"
    by (metis nth_mem)
  moreover have "env sa v = Some x"
    using eval_equations_other [OF x2 last] by simp
  ultimately show ?thesis
    using f1 by simp
qed

text \<open>
  From one cycle to the next: when no RAM write of the earlier cycle lands on the word that
  backs \<open>REG u\<close>, the equation \<open>v = REG u\<close> yields in the later cycle the value \<open>u\<close> had at
  the end of the earlier one.
\<close>

lemma reg_reads_previous_value:
  assumes c1: "cycle g s = Inr s1" and c2: "cycle g' s1 = Inr s2"
    and slot: "map_of (reg_info (mem_map s)) u = Some i"
    and dist: "distinct (map snd (reg_info (mem_map s)))"
    and keep: "\<forall>(n, info) \<in> set (ram_info (mem_map s)). \<forall>a. eval_arg s1 (write_addr info) = Inr a
                 \<longrightarrow> mem_offset (ram_block_index info) a \<noteq> i"
    and eq: "map_of (m_eq (prog s)) v = Some (RegExpression u)"
    and sched: "dep_list s = pre @ v # post" and last: "v \<notin> set post"
  shows "env s2 v = env s1 u"
proof -
  let ?b = "s\<lparr>env := bind_inputs g (m_input (prog s)) (env s)\<rparr>"
  from c1 obtain sa sb where
      e1: "eval_equations (dep_list s) ?b = Inr sa"
    and e2: "save_registers (reg_info (mem_map sa)) sa = Inr sb"
    and e3: "ram_writes (ram_info (mem_map sb)) sb = Inr s1"
    by (auto simp: cycle_def split: sum.splits)
  have fa: "mem_map sa = mem_map s" "prog sa = prog s" "dep_list sa = dep_list s"
    using eval_equations_frame [OF e1] by simp_all
  have fb: "env sb = env sa" "mem_map sb = mem_map s" "prog sb = prog s" "dep_list sb = dep_list s"
    using save_registers_frame [OF e2] fa by simp_all
  have f1: "env s1 = env sa" "mem_map s1 = mem_map s" "prog s1 = prog s" "dep_list s1 = dep_list s"
    using ram_writes_frame [OF e3] fb by simp_all
  from slot have mem: "(u, i) \<in> set (reg_info (mem_map s))"
    by (rule map_of_SomeD)
  have saved: "env sa u = Some (memory sb ! i)"
    using save_registers_slot [OF e2] dist mem fa by simp
  have same: "\<And>arg. eval_arg sb arg = eval_arg s1 arg"
    by (rule eval_arg_env) (simp add: f1 fb)
  have "memory s1 ! i = memory sb ! i"
    using ram_writes_untouched [OF e3, of i] keep fb by (simp add: same)
  with saved f1 have prev: "env s1 u = Some (memory s1 ! i)"
    by simp
  let ?b1 = "s1\<lparr>env := bind_inputs g' (m_input (prog s1)) (env s1)\<rparr>"
  from c2 obtain ta tb where
      t1: "eval_equations (dep_list s1) ?b1 = Inr ta"
    and t2: "save_registers (reg_info (mem_map ta)) ta = Inr tb"
    and t3: "ram_writes (ram_info (mem_map tb)) tb = Inr s2"
    by (auto simp: cycle_def split: sum.splits)
  have ga: "mem_map ta = mem_map s1"
    using eval_equations_frame [OF t1] by simp
  have gb: "env tb = env ta" "mem_map tb = mem_map s1"
    using save_registers_frame [OF t2] ga by simp_all
  have g2: "env s2 = env ta"
    using ram_writes_frame [OF t3] gb by simp
  from t1 sched f1 obtain t0 where
      p0: "eval_equations pre ?b1 = Inr t0" and p1: "eval_equations (v # post) t0 = Inr ta"
    by (auto simp: eval_equations_append split: sum.splits)
  have h0: "memory t0 = memory s1" "mem_map t0 = mem_map s" "prog t0 = prog s"
    using eval_equations_frame [OF p0] f1 by simp_all
  from p1 eq h0 obtain x where
      x1: "eval (env t0) (memory s1) (mem_map s) v (RegExpression u) = Inr x"
    and x2: "eval_equations post (t0\<lparr>env := (env t0)(v \<mapsto> x)\<rparr>) = Inr ta"
    by (auto split: sum.splits)
  from x1 slot have "x = memory s1 ! i"
    by (auto simp: mem_at_def split: if_splits)
  moreover have "env ta v = Some x"
    using eval_equations_other [OF x2 last] by simp
  ultimately show ?thesis
    using g2 prev by simp
qed

text \<open>
  C2. The claim: for every equation \<open>v = REG u\<close> the value of \<open>v\<close> in a cycle is the value
  \<open>u\<close> had at the end of the cycle before. The code: in the circuit \<open>reg_beside_ram\<close> the
  input \<open>x\<close> is 0 in both cycles, yet \<open>r = REG x\<close> reads 1 in the second cycle. The write
  address \<open>nx = NOT x\<close> is stored unmasked (all 64 bits set), the offset
  \<open>block_index + address\<close> wraps around to word 0, and the RAM write of the first cycle
  lands on the slot that backs \<open>REG x\<close>, after the register was saved there.
\<close>

theorem reg_beside_ram_run:
  "Simulator_new junk [] [rr_nx, rr_r, rr_m] reg_beside_ram
     = Inr ([(WARNING, 52)], reg_beside_ram_start)
   \<and> trace rr_x [hold_x0_e1, hold_x0_e1] reg_beside_ram_start = Inr [Some 0, Some 0]
   \<and> trace rr_r [hold_x0_e1, hold_x0_e1] reg_beside_ram_start = Inr [Some 0, Some 1]"
proof -
  have "Simulator_new junk [] [rr_nx, rr_r, rr_m] reg_beside_ram
          = Inr ([(WARNING, 52)], reg_beside_ram_start)"
    by (simp add: ctor_defs rr_x_def rr_e_def rr_nx_def rr_r_def rr_m_def reg_beside_ram_def
          reg_beside_ram_start_def hold_x0_e1_def)
  moreover have "trace rr_x [hold_x0_e1, hold_x0_e1] reg_beside_ram_start = Inr [Some 0, Some 0]"
    by (simp add: run_defs rr_x_def rr_e_def rr_nx_def rr_r_def rr_m_def reg_beside_ram_def
          reg_beside_ram_start_def hold_x0_e1_def mem_offset_wrap mem_offset_0)
  moreover have "trace rr_r [hold_x0_e1, hold_x0_e1] reg_beside_ram_start = Inr [Some 0, Some 1]"
    by (simp add: run_defs rr_x_def rr_e_def rr_nx_def rr_r_def rr_m_def reg_beside_ram_def
          reg_beside_ram_start_def hold_x0_e1_def mem_offset_wrap mem_offset_0)
  ultimately show ?thesis by simp
qed

subsection \<open>RAM reads and writes\<close>

text \<open>
  C3. Within one call of \<open>cycle\<close> every RAM read sees the memory as it was before the call:
  if the cycle succeeds and \<open>v\<close> is bound by a RAM equation and last evaluated at some place
  of the schedule, then the value left in \<open>v\<close> is the word of the memory from before the
  cycle (\<open>memory s\<close>) at the block's index plus the read address, the read address being
  evaluated when \<open>v\<close>'s turn comes. The whole schedule is evaluated against that same
  memory (\<open>memory s1 = memory s\<close>); the registers are saved and the RAM writes run only
  afterwards, on the environment the equations produced.
\<close>

theorem ram_read_before_write:
  assumes run: "cycle get_input_value s = Inr s'"
    and sched: "dep_list s = pre @ v # post" and last: "v \<notin> set post"
    and eq: "map_of (m_eq (prog s)) v = Some (RamExpression as ws ra we wa wd)"
  shows "\<exists>s0 s1 s2 info a.
           eval_equations pre (s\<lparr>env := bind_inputs get_input_value (m_input (prog s)) (env s)\<rparr>) = Inr s0
         \<and> map_of (ram_info (mem_map s)) (var_name v) = Some info
         \<and> visit_argument (env s0) ra = Inr a
         \<and> mem_offset (ram_block_index info) a < length (memory s)
         \<and> env s' v = Some (memory s ! mem_offset (ram_block_index info) a)
         \<and> eval_equations (dep_list s) (s\<lparr>env := bind_inputs get_input_value (m_input (prog s)) (env s)\<rparr>) = Inr s1
         \<and> memory s1 = memory s
         \<and> save_registers (reg_info (mem_map s)) s1 = Inr s2
         \<and> ram_writes (ram_info (mem_map s)) s2 = Inr s'
         \<and> env s2 = env s1 \<and> env s' = env s1"
proof -
  let ?b = "s\<lparr>env := bind_inputs get_input_value (m_input (prog s)) (env s)\<rparr>"
  from run obtain s1 s2 where
      e1: "eval_equations (dep_list s) ?b = Inr s1"
    and e2: "save_registers (reg_info (mem_map s1)) s1 = Inr s2"
    and e3: "ram_writes (ram_info (mem_map s2)) s2 = Inr s'"
    by (auto simp: cycle_def split: sum.splits)
  have f1: "memory s1 = memory s" "mem_map s1 = mem_map s"
    using eval_equations_frame [OF e1] by simp_all
  have f2: "env s2 = env s1" "mem_map s2 = mem_map s"
    using save_registers_frame [OF e2] f1 by simp_all
  have f3: "env s' = env s1"
    using ram_writes_frame [OF e3] f2 by simp
  from e1 sched obtain s0 where
      p0: "eval_equations pre ?b = Inr s0" and p1: "eval_equations (v # post) s0 = Inr s1"
    by (auto simp: eval_equations_append split: sum.splits)
  have g0: "memory s0 = memory s" "mem_map s0 = mem_map s" "prog s0 = prog s"
    using eval_equations_frame [OF p0] by simp_all
  from p1 eq g0 obtain x where
      x1: "eval (env s0) (memory s) (mem_map s) v (RamExpression as ws ra we wa wd) = Inr x"
    and x2: "eval_equations post (s0\<lparr>env := (env s0)(v \<mapsto> x)\<rparr>) = Inr s1"
    by (auto split: sum.splits)
  from x1 obtain a info where
      a1: "visit_argument (env s0) ra = Inr a"
    and a2: "map_of (ram_info (mem_map s)) (var_name v) = Some info"
    and a3: "mem_at (memory s) (mem_offset (ram_block_index info) a) = Inr x"
    by (auto split: sum.splits option.splits)
  from a3 have a4: "mem_offset (ram_block_index info) a < length (memory s)"
    and a5: "x = memory s ! mem_offset (ram_block_index info) a"
    by (auto simp: mem_at_def split: if_splits)
  have "env s1 v = Some x"
    using eval_equations_other [OF x2 last] by simp
  with f3 a5 have r: "env s' v = Some (memory s ! mem_offset (ram_block_index info) a)"
    by simp
  show ?thesis
    using p0 a2 a1 a4 r e1 f1 e2 e3 f2 f3 by auto
qed

text \<open>
  The read-before-write scenario: the RAM holds \<open>[0, 0]\<close>; the first cycle writes 15 to
  address 0 and reads address 0, the second cycle only reads.
\<close>

lemma small_ram_two_cycles:
  "\<exists>s'. cycle write_15_at_0 small_ram_start = Inr s' \<and> env s' ram_q = Some 0 \<and> memory s' = [15, 0]
      \<and> (\<exists>s''. cycle (\<lambda>_. 0) s' = Inr s'' \<and> env s'' ram_q = Some 15 \<and> memory s'' = [15, 0])"
  by (simp add: run_defs ram_ra_def ram_we_def ram_wa_def ram_wd_def ram_q_def small_ram_def
          small_ram_start_def write_15_at_0_def mem_offset_0)

theorem ram_read_before_write_witness:
  "dep_list small_ram_start = [] @ ram_q # []
   \<and> ram_q \<notin> set []
   \<and> map_of (m_eq (prog small_ram_start)) ram_q
        = Some (RamExpression 1 4 (VARIABLE ram_ra) (VARIABLE ram_we) (VARIABLE ram_wa) (VARIABLE ram_wd))
   \<and> (\<exists>s'. cycle write_15_at_0 small_ram_start = Inr s'
          \<and> env s' ram_q = Some (memory small_ram_start ! 0)
          \<and> memory small_ram_start ! 0 = 0
          \<and> memory s' ! 0 = 15)"
proof -
  have h2: "dep_list small_ram_start = [] @ ram_q # []"
    by (simp add: ram_ra_def ram_we_def ram_wa_def ram_wd_def ram_q_def small_ram_def
          small_ram_start_def write_15_at_0_def)
  have h3: "ram_q \<notin> set []"
    by simp
  have h4: "map_of (m_eq (prog small_ram_start)) ram_q
        = Some (RamExpression 1 4 (VARIABLE ram_ra) (VARIABLE ram_we) (VARIABLE ram_wa) (VARIABLE ram_wd))"
    by (simp add: ram_ra_def ram_we_def ram_wa_def ram_wd_def ram_q_def small_ram_def
          small_ram_start_def write_15_at_0_def)
  from small_ram_two_cycles obtain s' where
      h1: "cycle write_15_at_0 small_ram_start = Inr s'" and m: "memory s' = [15, 0]"
    by blast
  from ram_read_before_write [OF h1 h2 h3 h4] obtain s0 info a where
      r0: "eval_equations [] (small_ram_start\<lparr>env := bind_inputs write_15_at_0
              (m_input (prog small_ram_start)) (env small_ram_start)\<rparr>) = Inr s0"
    and r1: "map_of (ram_info (mem_map small_ram_start)) (var_name ram_q) = Some info"
    and r2: "visit_argument (env s0) (VARIABLE ram_ra) = Inr a"
    and r3: "env s' ram_q = Some (memory small_ram_start ! mem_offset (ram_block_index info) a)"
    by blast
  from r1 have i: "ram_block_index info = 0"
    by (auto simp: ram_ra_def ram_we_def ram_wa_def ram_wd_def ram_q_def small_ram_def
          small_ram_start_def write_15_at_0_def)
  from r0 r2 have a: "a = 0"
    by (auto simp: ram_ra_def ram_we_def ram_wa_def ram_wd_def ram_q_def small_ram_def
          small_ram_start_def write_15_at_0_def env_at_def)
  from r3 i a have "env s' ram_q = Some (memory small_ram_start ! 0)"
    by (simp add: mem_offset_def)
  moreover have "memory small_ram_start ! 0 = 0"
    by (simp add: ram_ra_def ram_we_def ram_wa_def ram_wd_def ram_q_def small_ram_def
          small_ram_start_def write_15_at_0_def)
  ultimately show ?thesis
    using h1 h2 h3 h4 m by simp
qed

text \<open>What the write of one RAM block does to the memory, once the equations are done.\<close>

lemma ram_write_applied:
  assumes "ram_writes [(n, info)] s = Inr s'"
    and "eval_arg s (write_enable info) = Inr we" and "we \<noteq> 0"
  shows "\<exists>d a. eval_arg s (data info) = Inr d \<and> eval_arg s (write_addr info) = Inr a
           \<and> mem_offset (ram_block_index info) a < length (memory s)
           \<and> memory s' = (memory s)[mem_offset (ram_block_index info) a := d]"
  using assms by (auto simp: Let_def split: sum.splits if_splits)

lemma ram_write_skipped:
  assumes "ram_writes [(n, info)] s = Inr s'" and "eval_arg s (write_enable info) = Inr 0"
  shows "memory s' = memory s"
  using assms by simp

subsection \<open>Width of the stored values\<close>

text \<open>
  C4. The claim: a variable read from the evaluator's state is below \<open>2 ^ width\<close>, the
  result of \<open>NOT\<close> being masked to the width of its target. The code: \<open>y = NOT x\<close> with
  one-bit \<open>x = 0\<close> stores all 64 bits set in \<open>y\<close>, and reading \<open>y\<close> returns that value;
  nothing masks it on the way in or out.
\<close>

theorem inverter_run:
  "Simulator_new junk [] [inv_y] inverter = Inr ([], inverter_start)
   \<and> (\<exists>s'. cycle (\<lambda>_. 0) inverter_start = Inr s'
          \<and> env s' inv_y = Some 18446744073709551615
          \<and> visit_argument (env s') (VARIABLE inv_y) = Inr 18446744073709551615)
   \<and> var_bus_size inv_y = 1
   \<and> \<not> unat (18446744073709551615 :: value_t) < 2 ^ 1"
proof -
  have "Simulator_new junk [] [inv_y] inverter = Inr ([], inverter_start)"
    by (simp add: ctor_defs inv_x_def inv_y_def inverter_def inverter_start_def)
  moreover have "\<exists>s'. cycle (\<lambda>_. 0) inverter_start = Inr s'
          \<and> env s' inv_y = Some 18446744073709551615
          \<and> visit_argument (env s') (VARIABLE inv_y) = Inr 18446744073709551615"
    by (simp add: run_defs inv_x_def inv_y_def inverter_def inverter_start_def)
  moreover have "var_bus_size inv_y = 1"
    by (simp add: inv_x_def inv_y_def inverter_def inverter_start_def)
  moreover have "\<not> unat (18446744073709551615 :: value_t) < 2 ^ 1"
    by simp
  ultimately show ?thesis by blast
qed

text \<open>
  The complement is taken on all 64 bits. The high bits are not without effect: a \<open>MUX\<close>
  tests its choice against zero, so with a one-bit \<open>y\<close> holding \<open>NOT 1\<close> it selects its
  true branch, as if \<open>y\<close> were 1.
\<close>

lemma eval_not:
  "visit_argument e a = Inr x \<Longrightarrow> eval e mem mm v (NotExpression a) = Inr (NOT x)"
  by simp

lemma mux_on_inverted_one:
  "eval [y \<mapsto> NOT 1] mem mm v
     (MuxExpression (VARIABLE y) (CONSTANT (Constant 1 1)) (CONSTANT (Constant 1 0))) = Inr 1"
  by (simp add: env_at_def)

subsection \<open>Concatenation\<close>

text \<open>
  The shift applied to the second argument is the bus size of the whole \<open>CONCAT\<close>
  expression, that is the sum of both widths.
\<close>

lemma eval_concat:
  "visit_argument e a = Inr x \<Longrightarrow> visit_argument e b = Inr y
   \<Longrightarrow> arg_bus_size a + arg_bus_size b < 64
   \<Longrightarrow> eval e mem mm v (ConcatExpression a b)
         = Inr (push_bit (arg_bus_size a + arg_bus_size b) y OR x)"
  by (simp add: shl_def)

text \<open>
  C5. The claim: \<open>CONCAT a b\<close> yields \<open>a | (b << width a)\<close>. The code: for two one-bit
  constants of value 1 the evaluator returns 5 (the second argument shifted by 2), whereas
  \<open>1 | (1 << 1)\<close> is 3.
\<close>

theorem concat_ones:
  "eval e mem mm v (ConcatExpression (CONSTANT (Constant 1 1)) (CONSTANT (Constant 1 1))) = Inr 5
   \<and> (1 :: value_t) OR push_bit (cst_bus_size (Constant 1 1)) 1 = 3"
  by (simp add: shl_def)

subsection \<open>Memory blocks without data\<close>

text \<open>
  C6. The claim: a ROM block without data makes the construction report an error and no
  cycle is ever run. The code: for the two-entry ROM and an input manager without memory
  chunks the constructor prints the report (ERROR, code 52) and returns the simulator, and
  the cycles then run on a ROM of zeros.
\<close>

theorem unbound_rom_run:
  "Simulator_new junk [] [rom_d] two_entry_rom = Inr ([(ERROR, 52)], two_entry_rom_start [0, 0])
   \<and> trace rom_d [\<lambda>_. 0, \<lambda>_. 1] (two_entry_rom_start [0, 0]) = Inr [Some 0, Some 0]"
proof -
  have "Simulator_new junk [] [rom_d] two_entry_rom = Inr ([(ERROR, 52)], two_entry_rom_start [0, 0])"
    by (simp add: ctor_defs rom_addr_def rom_d_def two_entry_rom_def two_entry_rom_mapper_def
          two_entry_rom_start_def)
  moreover have "trace rom_d [\<lambda>_. 0, \<lambda>_. 1] (two_entry_rom_start [0, 0]) = Inr [Some 0, Some 0]"
    by (simp add: run_defs rom_addr_def rom_d_def two_entry_rom_def two_entry_rom_mapper_def
          two_entry_rom_start_def mem_offset_0)
  ultimately show ?thesis by simp
qed

text \<open>
  More generally the constructor cannot stop when the input manager holds no memory chunk:
  the only \<open>exit\<close> of the constructor is the size check of a chunk.
\<close>

lemma no_chunks_no_abort:
  "MemoryMapper_new p = Inr mm \<Longrightarrow> \<exists>reports s. Simulator_new junk [] schedule p = Inr (reports, s)"
  by (simp add: Simulator_new_def)

text \<open>With the data supplied the same circuit reads its ROM, and nothing is reported.\<close>

lemma bound_rom_run:
  "Simulator_new junk [(''d'', [10, 5])] [rom_d] two_entry_rom = Inr ([], two_entry_rom_start [10, 5])"
  by (simp add: ctor_defs rom_addr_def rom_d_def two_entry_rom_def two_entry_rom_mapper_def
          two_entry_rom_start_def)

text \<open>An uninitialised RAM block is a warning, and the simulator is built.\<close>

lemma unbound_ram_run:
  "Simulator_new junk [] [ram_q] small_ram = Inr ([(WARNING, 52)], small_ram_start)"
  by (simp add: ctor_defs ram_ra_def ram_we_def ram_wa_def ram_wd_def ram_q_def small_ram_def
          small_ram_start_def write_15_at_0_def)

subsection \<open>Memory chunks that match no block\<close>



text \<open>
  Seen from the constructor: with such a chunk and locals that happen to hold the size 2
  and the index 0, the ROM block of the two-entry ROM is filled from the unused chunk.
\<close>

lemma unused_chunk_fills_rom:
  "Simulator_new (\<lambda>_. (2, 0)) [(''ghost'', [7, 7])] [rom_d] two_entry_rom
     = Inr ([(WARNING, 50), (ERROR, 52)], two_entry_rom_start [7, 7])"
  by (simp add: ctor_defs rom_addr_def rom_d_def two_entry_rom_def two_entry_rom_mapper_def
          two_entry_rom_start_def)

section \<open>Properties of the parser\<close>

lemmas parser_defs = tok_def m_token_def consume_def parse_program_def
  parse_inputs_references_def parse_outputs_references_def parse_variable_declaration_def
  build_intput_output_list_def parse_equations_def parse_expression_def parse_variable_def
  parse_argument_def parse_concat_def parse_references_loop.simps parse_variables_loop.simps
  parse_equations_loop.simps emplace_def

lemmas int_defs = parse_bus_size_def parse_size_spec_def parse_int_def digit_of_def
  max_bus_size_t_def max_value_t_def max_bus_size_def

subsection \<open>Widths of equations\<close>

text \<open>
  C7. The claim: parsing fails whenever the expression of an equation has a bus width other
  than the declared width of its target. The code: the source with \<open>o = CONCAT a b\<close>, all
  three variables one bit wide, is parsed into a program; the expression is two bits wide
  and its target one.
\<close>

theorem wide_concat_accepted:
  "parse_program wide_concat_tokens =
     Inr \<lparr>m_input = [Variable 1 ''a'', Variable 1 ''b''], m_output = [Variable 1 ''o''],
          m_vars = [Variable 1 ''a'', Variable 1 ''b'', Variable 1 ''o''],
          m_eq = [(Variable 1 ''o'',
                   ConcatExpression (VARIABLE (Variable 1 ''a'')) (VARIABLE (Variable 1 ''b'')))]\<rparr>
   \<and> get_bus_size (ConcatExpression (VARIABLE (Variable 1 ''a'')) (VARIABLE (Variable 1 ''b''))) = 2
   \<and> var_bus_size (Variable 1 ''o'') = 1"
  by (simp add: wide_concat_tokens_def parser_defs)

text \<open>The same with a two-bit constant for a one-bit variable.\<close>

lemma wide_constant_accepted:
  "parse_program wide_constant_tokens =
     Inr \<lparr>m_input = [Variable 1 ''a''], m_output = [Variable 1 ''o''],
          m_vars = [Variable 1 ''a'', Variable 1 ''o''],
          m_eq = [(Variable 1 ''o'', ArgExpression (CONSTANT (Constant 2 3)))]\<rparr>"
  by (simp add: wide_constant_tokens_def parser_defs int_defs parse_binary_constant_def)

subsection \<open>Two equations for one variable\<close>

text \<open>\<open>try_emplace\<close> keeps the equation a variable already has.\<close>

lemma emplace_keeps_first: "map_of eqs v = Some e \<Longrightarrow> emplace v e' eqs = eqs"
  by (simp add: emplace_def)

lemma emplace_adds_new: "map_of eqs v = None \<Longrightarrow> emplace v e eqs = eqs @ [(v, e)]"
  by (simp add: emplace_def)

text \<open>
  C8. The claim: parsing fails when two equations assign the same variable, and a second
  equation is never silently dropped. The code: the source with \<open>o = a\<close> followed by
  \<open>o = NOT a\<close> is parsed into a program whose only equation is \<open>o = a\<close>; \<open>try_emplace\<close>
  drops the second one and nothing is reported.
\<close>

theorem twice_assigned_accepted:
  "parse_program twice_assigned_tokens =
     Inr \<lparr>m_input = [Variable 1 ''a''], m_output = [Variable 1 ''o''],
          m_vars = [Variable 1 ''a'', Variable 1 ''o''],
          m_eq = [(Variable 1 ''o'', ArgExpression (VARIABLE (Variable 1 ''a'')))]\<rparr>"
  by (simp add: twice_assigned_tokens_def parser_defs)

subsection \<open>Slices\<close>




end
